theory Spec2Isabelle
  imports Complex_Main
begin

section \<open>Python values\<close>

text \<open>
  The agent stores field values that are either \<^verbatim>\<open>None\<close> or a \<^verbatim>\<open>str\<close>:
  \<open>None\<close> is Python's \<^verbatim>\<open>None\<close>, \<open>Some s\<close> the string \<open>s\<close>.
  A \<^verbatim>\<open>str\<close> is a \<open>string\<close>; a character outside ASCII stands as the bytes
  of its UTF-8 encoding.
  A \<^verbatim>\<open>dict\<close> keeps insertion order, so it is an association list whose keys
  are pairwise distinct; \<open>dict_set\<close> is the assignment \<^verbatim>\<open>d[k] = v\<close>
  (in place for a key that is present, at the end for a new key).
  A Python \<^verbatim>\<open>float\<close> is modelled by the rational number it stands for.
\<close>

type_synonym pyval = "string option"

type_synonym pydict = "(string \<times> pyval) list"

datatype error =
    ZeroDivisionError
  | AttributeError
  | KeyError
  | ValueError string
  | JSONDecodeError
  | ValidationError
  | LLMError string

definition truthy :: "pyval \<Rightarrow> bool" where
  "truthy v = (case v of None \<Rightarrow> False | Some s \<Rightarrow> s \<noteq> [])"

definition dict_has :: "pydict \<Rightarrow> string \<Rightarrow> bool" where
  "dict_has d k = (k \<in> fst ` set d)"

fun dict_set :: "pydict \<Rightarrow> string \<Rightarrow> pyval \<Rightarrow> pydict" where
  "dict_set [] k v = [(k, v)]"
| "dict_set ((k', v') # d) k v =
     (if k' = k then (k, v) # d else (k', v') # dict_set d k v)"

definition dict_get :: "pydict \<Rightarrow> string \<Rightarrow> pyval" where
  \<comment> \<open>\<^verbatim>\<open>d.get(k)\<close>: \<^verbatim>\<open>None\<close> for a missing key\<close>
  "dict_get d k = (case map_of d k of None \<Rightarrow> None | Some v \<Rightarrow> v)"

definition py_round1 :: "rat \<Rightarrow> rat" where
  \<comment> \<open>\<^verbatim>\<open>round(x, 1)\<close>: to one decimal place, a tie to the even digit\<close>
  "py_round1 x =
     (let t = x * 10; f = \<lfloor>t\<rfloor>; d = t - of_int f
      in of_int (if d < 1 / 2 then f
                 else if 1 / 2 < d then f + 1
                 else if even f then f else f + 1) / 10)"

subsection \<open>Strings\<close>

definition lower_char :: "char \<Rightarrow> char" where
  "lower_char c =
     (let n = (of_char c :: nat) in if 65 \<le> n \<and> n \<le> 90 then char_of (n + 32) else c)"

definition lower :: "string \<Rightarrow> string" where
  \<comment> \<open>\<^verbatim>\<open>s.lower()\<close> on the ASCII letters; a character outside ASCII is left as it is,
      also the few that Python maps to an ASCII letter (the Kelvin sign to \<open>k\<close>)\<close>
  "lower s = map lower_char s"

definition is_space :: "char \<Rightarrow> bool" where
  "is_space c = (let n = (of_char c :: nat) in (9 \<le> n \<and> n \<le> 13) \<or> (28 \<le> n \<and> n \<le> 32))"

definition strip :: "string \<Rightarrow> string" where
  \<comment> \<open>\<^verbatim>\<open>s.strip()\<close> on the ASCII whitespace; whitespace outside ASCII (the no-break
      space) is not removed\<close>
  "strip s = rev (dropWhile is_space (rev (dropWhile is_space s)))"

fun is_prefix :: "string \<Rightarrow> string \<Rightarrow> bool" where
  "is_prefix [] s = True"
| "is_prefix (c # cs) [] = False"
| "is_prefix (c # cs) (d # ds) = (c = d \<and> is_prefix cs ds)"

fun substring :: "string \<Rightarrow> string \<Rightarrow> bool" where
  \<comment> \<open>\<^verbatim>\<open>w in s\<close>\<close>
  "substring w [] = is_prefix w []"
| "substring w (c # s) = (is_prefix w (c # s) \<or> substring w s)"

function replace :: "string \<Rightarrow> string \<Rightarrow> string \<Rightarrow> string" where
  \<comment> \<open>\<^verbatim>\<open>s.replace(old, new)\<close>\<close>
  "replace old new s =
     (if old = [] then new @ concat (map (\<lambda>c. c # new) s)
      else if s = [] then []
      else if is_prefix old s then new @ replace old new (drop (length old) s)
      else hd s # replace old new (tl s))"
  by pat_completeness auto
termination
  by (relation "measure (\<lambda>(old, new, s). length s)") auto

definition digit :: "nat \<Rightarrow> char" where
  "digit n = char_of (48 + n)"

function str_nat :: "nat \<Rightarrow> string" where
  "str_nat n = (if n < 10 then [digit n] else str_nat (n div 10) @ [digit (n mod 10)])"
  by pat_completeness auto
termination
  by (relation "measure id") auto

definition str_int :: "int \<Rightarrow> string" where
  "str_int i = (if i < 0 then CHR ''-'' # str_nat (nat (- i)) else str_nat (nat i))"

definition str_float1 :: "rat \<Rightarrow> string" where
  \<comment> \<open>\<^verbatim>\<open>str(x)\<close> of a float \<open>x \<ge> 0\<close> that has one decimal place, as \<^verbatim>\<open>round(_, 1)\<close> returns\<close>
  "str_float1 x = (let k = nat \<lfloor>x * 10\<rfloor> in str_nat (k div 10) @ ''.'' @ str_nat (k mod 10))"

definition str_val :: "pyval \<Rightarrow> string" where
  "str_val v = (case v of None \<Rightarrow> ''None'' | Some s \<Rightarrow> s)"

fun join :: "string \<Rightarrow> string list \<Rightarrow> string" where
  \<comment> \<open>\<^verbatim>\<open>sep.join(xs)\<close>\<close>
  "join sep [] = []"
| "join sep [x] = x"
| "join sep (x # y # ys) = x @ sep @ join sep (y # ys)"

definition py_last :: "int \<Rightarrow> 'a list \<Rightarrow> 'a list" where
  \<comment> \<open>the slice \<^verbatim>\<open>xs[-n:]\<close>: for \<open>n = 0\<close> it is \<^verbatim>\<open>xs[0:]\<close>, the whole list, and
      for \<open>n < 0\<close> it drops the first \<open>-n\<close> elements\<close>
  "py_last n xs = (if 0 < n then drop (length xs - nat n) xs else drop (nat (- n)) xs)"

definition nl :: string where
  "nl = [CHR 0x0A]"

section \<open>services/field\_manager.py\<close>

definition FORM_SCHEMA :: "(string \<times> string) list" where
  "FORM_SCHEMA =
    [(''Client'', ''Name of requester''),
     (''Problem'', ''What needs to be studied''),
     (''Discipline'', ''Scientific area''),
     (''Technique Area'', ''Specific technique''),
     (''Study Director'', ''Director name''),
     (''Study Director Site'', ''Lab location''),
     (''Priority'', ''Urgency level''),
     (''Date Results Required'', ''Deadline for results''),
     (''Sample Type'', ''Type of sample''),
     (''Sample ID'', ''Unique sample identifier''),
     (''Project Code'', ''Project or cost center code''),
     (''Special Instructions'', ''Special handling instructions'')]"

definition field_names :: "string list" where
  "field_names = map fst FORM_SCHEMA"

record FieldManager =
  fm_fields :: pydict  \<comment> \<open>\<^verbatim>\<open>self.fields\<close> (the name \<open>fields\<close> is taken by the record package)\<close>

definition empty_fields :: pydict where
  \<comment> \<open>\<^verbatim>\<open>{field["Field Name"]: None for field in self.FORM_SCHEMA}\<close>\<close>
  "empty_fields = fold (\<lambda>field d. dict_set d (fst field) None) FORM_SCHEMA []"

definition FieldManager_init :: FieldManager where
  "FieldManager_init = \<lparr>fm_fields = empty_fields\<rparr>"

fun update_loop :: "pydict \<Rightarrow> pydict \<times> pydict \<Rightarrow> pydict \<times> pydict" where
  "update_loop [] (fs, updated) = (fs, updated)"
| "update_loop ((field_name, v) # rest) (fs, updated) =
     (if dict_has fs field_name
      then update_loop rest (dict_set fs field_name v, dict_set updated field_name v)
      else update_loop rest (fs, updated))"

definition update_fields :: "FieldManager \<Rightarrow> pydict \<Rightarrow> FieldManager \<times> pydict" where
  "update_fields fm updates =
     (case update_loop updates (fm_fields fm, []) of
        (fs, updated) \<Rightarrow> (fm\<lparr>fm_fields := fs\<rparr>, updated))"

definition get_field :: "FieldManager \<Rightarrow> string \<Rightarrow> pyval" where
  "get_field fm field_name = dict_get (fm_fields fm) field_name"

definition get_filled_fields :: "FieldManager \<Rightarrow> pydict" where
  "get_filled_fields fm = filter (\<lambda>(k, v). truthy v) (fm_fields fm)"

definition get_empty_fields :: "FieldManager \<Rightarrow> string list" where
  "get_empty_fields fm = map fst (filter (\<lambda>(k, v). \<not> truthy v) (fm_fields fm))"

definition calculate_progress :: "FieldManager \<Rightarrow> error + rat" where
  "calculate_progress fm =
     (let total = length (fm_fields fm);
          filled = length (filter truthy (map snd (fm_fields fm)))
      in if total = 0 then Inl ZeroDivisionError
         else Inr (py_round1 ((of_nat filled / of_nat total) * 100)))"

definition is_complete :: "FieldManager \<Rightarrow> bool" where
  "is_complete fm = list_all truthy (map snd (fm_fields fm))"

definition reset :: "FieldManager \<Rightarrow> FieldManager" where
  "reset fm = fm\<lparr>fm_fields := empty_fields\<rparr>"

definition fm_to_dict :: "FieldManager \<Rightarrow> pydict" where
  "fm_to_dict fm = fm_fields fm"

fun from_dict_loop :: "pydict \<Rightarrow> pydict \<Rightarrow> pydict" where
  "from_dict_loop [] fs = fs"
| "from_dict_loop ((field_name, v) # rest) fs =
     (if dict_has fs field_name
      then from_dict_loop rest (dict_set fs field_name v)
      else from_dict_loop rest fs)"

definition fm_from_dict :: "FieldManager \<Rightarrow> pydict \<Rightarrow> FieldManager" where
  "fm_from_dict fm data = fm\<lparr>fm_fields := from_dict_loop data (fm_fields fm)\<rparr>"


definition validate_field :: "string \<Rightarrow> pyval \<Rightarrow> bool" where
  "validate_field name v =
     (if name = ''Priority'' \<and> v \<notin> set (map Some [''Low'', ''Medium'', ''High'', ''Critical''])
      then False
      else if \<not> truthy v \<or> \<not> truthy (map_option strip v) then False
      else True)"

section \<open>agent/conversation\_manager.py\<close>

record entry =
  role :: string
  content :: string
  timestamp :: string
  entry_action :: "string option"

record ConversationManager =
  history :: "entry list"
  max_history :: int

definition ConversationManager_init :: "int \<Rightarrow> ConversationManager" where
  "ConversationManager_init cap = \<lparr>history = [], max_history = cap\<rparr>"

definition add_message ::
  "ConversationManager \<Rightarrow> string \<Rightarrow> string \<Rightarrow> string option \<Rightarrow> string \<Rightarrow> ConversationManager"
where
  \<comment> \<open>the last argument is the reading \<^verbatim>\<open>datetime.now().isoformat()\<close>\<close>
  "add_message cm r text act stamp =
     (let appended = history cm @
            [\<lparr>role = r, content = text, timestamp = stamp, entry_action = act\<rparr>]
      in if int (length appended) > max_history cm
         then cm\<lparr>history := py_last (max_history cm) appended\<rparr>
         else cm\<lparr>history := appended\<rparr>)"

definition get_history :: "ConversationManager \<Rightarrow> entry list" where
  "get_history cm = history cm"

definition get_recent :: "ConversationManager \<Rightarrow> int \<Rightarrow> entry list" where
  "get_recent cm n = py_last n (history cm)"

definition clear :: "ConversationManager \<Rightarrow> ConversationManager" where
  "clear cm = cm\<lparr>history := []\<rparr>"

definition cm_to_dict :: "ConversationManager \<Rightarrow> entry list" where
  "cm_to_dict cm = history cm"

definition cm_from_dict :: "ConversationManager \<Rightarrow> entry list \<Rightarrow> ConversationManager" where
  "cm_from_dict cm h = cm\<lparr>history := py_last (max_history cm) h\<rparr>"

section \<open>services/rag\_service.py\<close>

record rag_results =
  found_fields :: pydict
  num_results :: int
  similar_studies :: "string list option"

record RAGService =
  rag_client :: bool  \<comment> \<open>whether a client was given; \<open>False\<close> is \<^verbatim>\<open>rag_client=None\<close>\<close>

definition scenario_degradation :: rag_results where
  "scenario_degradation =
    \<lparr>found_fields =
       [(''Discipline'', Some ''Material Science''),
        (''Technique Area'', Some ''UV-Vis Spectroscopy''),
        (''Study Director'', Some ''Dr. Sarah Martinez''),
        (''Study Director Site'', Some ''Midland''),
        (''Sample Type'', Some ''Polymer''),
        (''Special Instructions'', Some ''Test under accelerated UV exposure conditions'')],
     num_results = 4,
     similar_studies = Some
       [''Study #12890: Polymer degradation analysis under UV exposure - PE resins'',
        ''Study #12923: Yellowing investigation in polyethylene films'',
        ''Study #13001: Outdoor weathering effects on DOWLEX resins'',
        ''Study #13045: Color stability testing for Arizona climate exposure'']\<rparr>"

definition scenario_gpc :: rag_results where
  "scenario_gpc =
    \<lparr>found_fields =
       [(''Discipline'', Some ''Separations''),
        (''Technique Area'', Some ''GPC''),
        (''Study Director'', Some ''Dr. Emily Carter''),
        (''Study Director Site'', Some ''Freeport''),
        (''Sample Type'', Some ''Polymer''),
        (''Special Instructions'',
           Some (''Use THF as solvent, measure at 40'' @ [CHR 0xC2, CHR 0xB0] @ ''C''))],
     num_results = 3,
     similar_studies = Some
       [''Study #12345: Molecular weight distribution analysis for polyethylene'',
        ''Study #12389: GPC analysis for similar HDPE material'',
        ''Study #12567: MW characterization of branched polymers'']\<rparr>"

definition scenario_thermal :: rag_results where
  "scenario_thermal =
    \<lparr>found_fields =
       [(''Discipline'', Some ''Material Science''),
        (''Technique Area'', Some ''DSC''),
        (''Study Director'', Some ''Dr. Robert Chen''),
        (''Study Director Site'', Some ''Midland''),
        (''Sample Type'', Some ''Polymer''),
        (''Special Instructions'',
           Some (''Run from -50'' @ [CHR 0xC2, CHR 0xB0] @ ''C to 200'' @ [CHR 0xC2, CHR 0xB0]
                 @ ''C at 10'' @ [CHR 0xC2, CHR 0xB0] @ ''C/min''))],
     num_results = 5,
     similar_studies = Some
       [''Study #13201: DSC analysis of polyethylene crystallinity'',
        ''Study #13245: Thermal properties of LLDPE resins'',
        ''Study #13289: Melting behavior characterization'',
        ''Study #13334: Glass transition temperature determination'',
        ''Study #13401: Thermal stability assessment'']\<rparr>"

definition scenario_ftir :: rag_results where
  "scenario_ftir =
    \<lparr>found_fields =
       [(''Discipline'', Some ''Material Science''),
        (''Technique Area'', Some ''FTIR''),
        (''Study Director'', Some ''Dr. Lisa Anderson''),
        (''Study Director Site'', Some ''Pittsburg''),
        (''Sample Type'', Some ''Coating''),
        (''Special Instructions'',
           Some (''ATR mode, 4000-600 cm'' @ [CHR 0xE2, CHR 0x81, CHR 0xBB, CHR 0xC2, CHR 0xB9]
                 @ '' range''))],
     num_results = 3,
     similar_studies = Some
       [''Study #13501: FTIR identification of functional groups in coatings'',
        ''Study #13567: Infrared spectroscopy for quality control'',
        ''Study #13623: Chemical composition analysis via FTIR'']\<rparr>"

definition scenario_nmr :: rag_results where
  "scenario_nmr =
    \<lparr>found_fields =
       [(''Discipline'', Some ''Material Science''),
        (''Technique Area'', Some ''NMR''),
        (''Study Director'', Some ''Dr. Michael Zhang''),
        (''Study Director Site'', Some ''Freeport''),
        (''Sample Type'', Some ''Polymer''),
        (''Special Instructions'', Some ''1H and 13C NMR in CDCl3'')],
     num_results = 2,
     similar_studies = Some
       [''Study #13701: NMR structural characterization of polymers'',
        ''Study #13789: Branch content determination via NMR'']\<rparr>"

definition scenario_formulation :: rag_results where
  "scenario_formulation =
    \<lparr>found_fields =
       [(''Discipline'', Some ''Formulation Science''),
        (''Technique Area'', Some ''HPLC''),
        (''Study Director'', Some ''Dr. Amanda Foster''),
        (''Study Director Site'', Some ''Midland''),
        (''Sample Type'', Some ''Adhesive''),
        (''Special Instructions'', Some ''Quantify additive concentrations'')],
     num_results = 4,
     similar_studies = Some
       [''Study #13901: Additive analysis in polymer formulations'',
        ''Study #13956: Composition characterization of blends'',
        ''Study #14002: HPLC method for stabilizer quantification'',
        ''Study #14078: Formulation reverse engineering'']\<rparr>"

definition scenario_generic :: rag_results where
  "scenario_generic =
    \<lparr>found_fields =
       [(''Discipline'', Some ''Material Science''),
        (''Technique Area'', Some ''Multiple Techniques''),
        (''Study Director'', Some ''Dr. Jennifer Williams''),
        (''Study Director Site'', Some ''Midland''),
        (''Sample Type'', Some ''Unknown'')],
     num_results = 2,
     similar_studies = Some
       [''Study #14123: General material characterization'',
        ''Study #14189: Multi-technique analysis approach'']\<rparr>"

definition get_keywords :: "string \<Rightarrow> string list" where
  "get_keywords scenario =
     (case map_of
        [(''degradation'', [''yellow'', ''degrad'', ''weather'', ''uv'', ''outdoor'', ''color'']),
         (''gpc'', [''gpc'', ''molecular weight'', ''mw'', ''polymer'']),
         (''thermal'', [''dsc'', ''thermal'', ''melting'', ''crystallin'', ''temperature'']),
         (''ftir'', [''ftir'', ''infrared'', ''spectroscop'', ''functional group'']),
         (''nmr'', [''nmr'', ''nuclear magnetic'', ''structure'']),
         (''formulation'', [''formulation'', ''composition'', ''blend'', ''additive''])]
        scenario of
        None \<Rightarrow> [] | Some ws \<Rightarrow> ws)"

definition scenarios :: "(string \<times> rag_results) list" where
  "scenarios =
    [(''degradation'', scenario_degradation),
     (''gpc'', scenario_gpc),
     (''thermal'', scenario_thermal),
     (''ftir'', scenario_ftir),
     (''nmr'', scenario_nmr),
     (''formulation'', scenario_formulation)]"

definition mock_search :: "string \<Rightarrow> rag_results" where
  "mock_search query =
     (let query_lower = lower query
      in case find (\<lambda>(keyword, scenario).
                      list_ex (\<lambda>w. substring w query_lower) (get_keywords keyword)) scenarios of
           Some (keyword, scenario) \<Rightarrow> scenario
         | None \<Rightarrow> scenario_generic)"

definition search :: "RAGService \<Rightarrow> string option \<Rightarrow> error + rag_results" where
  \<comment> \<open>with a client the real search is not implemented: the body returns no results;
      the mock calls \<^verbatim>\<open>query.lower()\<close>, which raises on \<^verbatim>\<open>None\<close>\<close>
  "search rag query =
     (if \<not> rag_client rag
      then (case query of None \<Rightarrow> Inl AttributeError | Some q \<Rightarrow> Inr (mock_search q))
      else Inr \<lparr>found_fields = [], num_results = 0, similar_studies = None\<rparr>)"

section \<open>models\<close>

datatype ActionType =
    SUGGEST_FIELDS
  | UPDATE_FIELD
  | SEARCH_RAG
  | APPLY_SUGGESTIONS
  | SUBMIT_FORM
  | CLARIFY
  | GENERIC_RESPONSE

fun action_value :: "ActionType \<Rightarrow> string" where
  "action_value SUGGEST_FIELDS = ''suggest_fields''"
| "action_value UPDATE_FIELD = ''update_field''"
| "action_value SEARCH_RAG = ''search_rag''"
| "action_value APPLY_SUGGESTIONS = ''apply_suggestions''"
| "action_value SUBMIT_FORM = ''submit_form''"
| "action_value CLARIFY = ''clarify''"
| "action_value GENERIC_RESPONSE = ''generic_response''"

record AgentDecision =
  action :: ActionType
  reasoning :: string
  field_name :: "string option"
  field_value :: "string option"
  search_query :: "string option"
  suggested_fields :: "pydict option"
  message_to_user :: string
  requires_user_input :: bool
  confidence :: rat

record ConfirmationDetection =
  is_confirmation :: bool
  is_rejection :: bool
  is_modification_request :: bool
  cd_confidence :: rat
  cd_reasoning :: string
  extracted_modifications :: "pydict option"

section \<open>The model collaborator\<close>

text \<open>
  The language model is outside the program. One turn makes one call; its outcome is
  either an exception (\<open>Inl\<close>) or the response dictionary, of which the program reads
  the key \<^verbatim>\<open>candidates\<close>: \<open>None\<close> when the key is absent, else the list of candidates,
  each the text at \<^verbatim>\<open>["content"]["parts"][0]["text"]\<close> or \<open>None\<close> when that path
  does not exist. \<^verbatim>\<open>json.loads\<close> and the construction of the pydantic models are
  library code: they are parameters, and may raise.
\<close>

type_synonym llm_response = "string option list option"

record 'j collaborator =
  call_llm :: "error + llm_response"
  json_loads :: "string \<Rightarrow> error + 'j"
  as_decision :: "'j \<Rightarrow> error + AgentDecision"
  as_confirmation :: "'j \<Rightarrow> error + ConfirmationDetection"

definition extract_json :: "(string \<Rightarrow> error + 'j) \<Rightarrow> llm_response \<Rightarrow> error + 'j" where
  "extract_json loads response =
     (case response of
        Some (candidate # others) \<Rightarrow>
          (case candidate of
             None \<Rightarrow> Inl KeyError
           | Some text \<Rightarrow> loads (strip (replace ''```'' [] (replace ''```json'' [] text))))
      | _ \<Rightarrow> Inl (ValueError ''No valid response from LLM''))"

section \<open>agent/decision\_maker.py\<close>

text \<open>
  The state the orchestrator hands to the decision maker. It goes into the prompt and the
  attached context only; what the collaborator answers is not a function of the program.
\<close>

record agent_state =
  st_progress_pct :: rat
  st_filled_fields :: pydict
  st_empty_fields :: "string list"
  st_awaiting_confirmation :: bool
  st_pending_suggestions :: "pydict option"
  st_rag_search_performed :: bool
  st_initial_extraction_done :: bool

definition fallback_decision :: "string \<Rightarrow> AgentDecision" where
  "fallback_decision user_message =
    \<lparr>action = CLARIFY,
     reasoning = ''Error processing request'',
     field_name = None,
     field_value = None,
     search_query = None,
     suggested_fields = None,
     message_to_user = ''I'm having trouble understanding. Could you rephrase that?'',
     requires_user_input = True,
     confidence = 3 / 10\<rparr>"

definition decide_action :: "'j collaborator \<Rightarrow> string \<Rightarrow> agent_state \<Rightarrow> AgentDecision" where
  \<comment> \<open>the \<^verbatim>\<open>try\<close> body: the call, \<^verbatim>\<open>_extract_json\<close>, the model's constructor;
      \<^verbatim>\<open>except Exception\<close> turns every failure into the fallback\<close>
  "decide_action llm user_message state =
     (case call_llm llm of
        Inl e \<Rightarrow> fallback_decision user_message
      | Inr response \<Rightarrow>
          (case extract_json (json_loads llm) response of
             Inl e \<Rightarrow> fallback_decision user_message
           | Inr decision_json \<Rightarrow>
               (case as_decision llm decision_json of
                  Inl e \<Rightarrow> fallback_decision user_message
                | Inr decision \<Rightarrow> decision)))"

section \<open>agent/confirmation\_handler.py\<close>

definition fallback_detection :: "string \<Rightarrow> ConfirmationDetection" where
  "fallback_detection text =
     (let msg_lower = strip (lower text);
          is_conf = list_ex (\<lambda>w. substring w msg_lower)
                      [''ok'', ''yes'', ''yeah'', ''sure'', ''looks good'', ''apply'', ''correct''];
          is_rej = list_ex (\<lambda>w. substring w msg_lower)
                      [''no'', ''nope'', ''wrong'', ''incorrect'', ''don't'', ''cancel'']
      in \<lparr>is_confirmation = is_conf,
          is_rejection = is_rej,
          is_modification_request = False,
          cd_confidence = 7 / 10,
          cd_reasoning = ''Fallback rule-based detection'',
          extracted_modifications = None\<rparr>)"

definition detect_confirmation ::
  "'j collaborator \<Rightarrow> string \<Rightarrow> pydict option \<Rightarrow> ConfirmationDetection"
where
  "detect_confirmation llm user_message pending =
     (case call_llm llm of
        Inl e \<Rightarrow> fallback_detection user_message
      | Inr response \<Rightarrow>
          (case extract_json (json_loads llm) response of
             Inl e \<Rightarrow> fallback_detection user_message
           | Inr confirmation_json \<Rightarrow>
               (case as_confirmation llm confirmation_json of
                  Inl e \<Rightarrow> fallback_detection user_message
                | Inr confirmation \<Rightarrow> confirmation)))"

section \<open>agent/action\_executor.py\<close>

text \<open>
  The agent is modelled with \<^verbatim>\<open>websocket_callback=None\<close> (the default), so
  \<^verbatim>\<open>_send_to_ui\<close> returns at once and no message leaves the process. Of the lines
  printed to standard output the model keeps the two that record a retrieval:
  the announcement of the automatic search and the query of every search.
  The executor holds the agent's own field manager and retrieval service, so its
  handlers act on the agent's state.
\<close>

datatype event = AUTO_TRIGGER | RAG_SEARCH "string option"

record response =
  rtype :: string
  message :: string
  r_progress_pct :: "rat option"
  suggestions :: "pydict option"
  ticket_id :: "string option"
  ticket_data :: "pydict option"

definition reply :: "string \<Rightarrow> string \<Rightarrow> response" where
  "reply t m =
    \<lparr>rtype = t, message = m, r_progress_pct = None, suggestions = None,
     ticket_id = None, ticket_data = None\<rparr>"

definition check_mark :: string where "check_mark = [CHR 0xE2, CHR 0x9C, CHR 0x85]"
definition bullet :: string where "bullet = [CHR 0xE2, CHR 0x80, CHR 0xA2]"
definition bar_chart :: string where "bar_chart = [CHR 0xF0, CHR 0x9F, CHR 0x93, CHR 0x8A]"
definition books :: string where "books = [CHR 0xF0, CHR 0x9F, CHR 0x93, CHR 0x9A]"
definition open_book :: string where "open_book = [CHR 0xF0, CHR 0x9F, CHR 0x93, CHR 0x96]"
definition sparkles :: string where "sparkles = [CHR 0xE2, CHR 0x9C, CHR 0xA8]"
definition memo :: string where "memo = [CHR 0xF0, CHR 0x9F, CHR 0x93, CHR 0x9D]"
definition cross_mark :: string where "cross_mark = [CHR 0xE2, CHR 0x9D, CHR 0x8C]"
definition warning_sign :: string where
  "warning_sign = [CHR 0xE2, CHR 0x9A, CHR 0xA0, CHR 0xEF, CHR 0xB8, CHR 0x8F]"
definition party_popper :: string where "party_popper = [CHR 0xF0, CHR 0x9F, CHR 0x8E, CHR 0x89]"
definition clipboard :: string where "clipboard = [CHR 0xF0, CHR 0x9F, CHR 0x93, CHR 0x8B]"
definition waving_hand :: string where "waving_hand = [CHR 0xF0, CHR 0x9F, CHR 0x91, CHR 0x8B]"
definition speech_balloon :: string where "speech_balloon = [CHR 0xF0, CHR 0x9F, CHR 0x92, CHR 0xAC]"

definition bullets :: "pydict \<Rightarrow> string" where
  \<comment> \<open>one line \<^verbatim>\<open>"* **{field}:** {value}\n"\<close> for each item\<close>
  "bullets d = concat (map (\<lambda>(f, v). bullet @ '' **'' @ f @ '':** '' @ str_val v @ nl) d)"

definition dict_truthy :: "pydict option \<Rightarrow> bool" where
  "dict_truthy d = (case d of None \<Rightarrow> False | Some items \<Rightarrow> items \<noteq> [])"

definition references :: "rag_results \<Rightarrow> string" where
  "references results =
     (case similar_studies results of
        None \<Rightarrow> []
      | Some studies \<Rightarrow>
          nl @ open_book @ '' **References:**'' @ nl
          @ concat (map (\<lambda>study. bullet @ '' '' @ study @ nl) (take 2 studies)))"

record agent_core =
  field_manager :: FieldManager
  rag_service :: RAGService
  stdout :: "event list"

definition execute_suggest_fields ::
  "AgentDecision \<Rightarrow> 'a agent_core_scheme \<Rightarrow> error + ('a agent_core_scheme \<times> response)"
where
  "execute_suggest_fields decision ag =
     (case suggested_fields decision of
        None \<Rightarrow>
          Inr (ag, reply ''error'' ''No fields extracted. Could you provide them one at a time?'')
      | Some suggested \<Rightarrow>
          if suggested = []
          then Inr (ag, reply ''error'' ''No fields extracted. Could you provide them one at a time?'')
          else
            let text = memo @ '' **I found these values:**'' @ nl @ nl
                  @ bullets suggested
                  @ nl @ sparkles @ '' Say **'yes'** to apply, or tell me what to change.''
            in Inr (ag, (reply ''suggestion_pending'' text)\<lparr>suggestions := Some suggested\<rparr>))"

definition execute_update_field ::
  "AgentDecision \<Rightarrow> 'a agent_core_scheme \<Rightarrow> error + ('a agent_core_scheme \<times> response)"
where
  "execute_update_field decision ag =
     (if \<not> truthy (field_name decision) \<or> \<not> truthy (field_value decision)
      then Inr (ag, reply ''error'' ''Couldn't extract field and value'')
      else
        let name = str_val (field_name decision);
            fm = fst (update_fields (field_manager ag) [(name, field_value decision)])
        in case calculate_progress fm of
             Inl e \<Rightarrow> Inl e
           | Inr progress \<Rightarrow>
               let text = check_mark @ '' **Updated '' @ name @ '':** ''
                     @ str_val (field_value decision) @ nl
                     @ nl @ bar_chart @ '' **Progress:** '' @ str_float1 progress @ ''%'';
                   text = (if \<not> is_complete fm
                           then text @ nl @ nl @ memo @ '' **Still need:** ''
                                @ join '', '' (take 3 (get_empty_fields fm))
                           else text)
               in Inr (ag\<lparr>field_manager := fm\<rparr>, reply ''field_updated'' text))"

definition execute_search_rag ::
  "AgentDecision \<Rightarrow> 'a agent_core_scheme \<Rightarrow> error + ('a agent_core_scheme \<times> response)"
where
  "execute_search_rag decision ag =
     (let ag = ag\<lparr>stdout := stdout ag @ [RAG_SEARCH (search_query decision)]\<rparr>
      in case search (rag_service ag) (search_query decision) of
           Inl e \<Rightarrow> Inl e
         | Inr results \<Rightarrow>
             if num_results results > 0 \<and> found_fields results \<noteq> []
             then
               let text = books @ '' **Found '' @ str_int (num_results results)
                     @ '' similar studies!**'' @ nl @ nl
                     @ bullets (found_fields results)
                     @ references results
                     @ nl @ sparkles @ '' Say **'yes'** to apply these values.''
               in Inr (ag, (reply ''suggestion_pending'' text)
                             \<lparr>suggestions := Some (found_fields results)\<rparr>)
             else Inr (ag, reply ''no_results''
                             (cross_mark @ '' No similar studies found. Please provide field values.'')))"

definition execute_submit_form ::
  "string \<Rightarrow> AgentDecision \<Rightarrow> 'a agent_core_scheme \<Rightarrow> error + ('a agent_core_scheme \<times> response)"
where
  \<comment> \<open>the first argument is the reading \<^verbatim>\<open>datetime.now().strftime('%Y%m%d-%H%M%S')\<close>\<close>
  "execute_submit_form stamp decision ag =
     (if \<not> is_complete (field_manager ag)
      then Inr (ag, reply ''incomplete''
                      (warning_sign @ '' Form incomplete. Missing: ''
                       @ join '', '' (get_empty_fields (field_manager ag))))
      else
        let ticket = ''STUDY-'' @ stamp;
            filled = get_filled_fields (field_manager ag);
            text = party_popper @ '' **Study ticket created!**'' @ nl @ nl
              @ clipboard @ '' **Ticket ID:** `'' @ ticket @ ''`'' @ nl @ nl
              @ bullets filled
        in Inr (ag, (reply ''submitted'' text)
                      \<lparr>ticket_id := Some ticket, ticket_data := Some filled\<rparr>))"

definition execute_clarify ::
  "AgentDecision \<Rightarrow> 'a agent_core_scheme \<Rightarrow> error + ('a agent_core_scheme \<times> response)"
where
  "execute_clarify decision ag = Inr (ag, reply ''clarify'' (message_to_user decision))"

definition execute_generic_response ::
  "AgentDecision \<Rightarrow> 'a agent_core_scheme \<Rightarrow> error + ('a agent_core_scheme \<times> response)"
where
  "execute_generic_response decision ag =
     Inr (ag, reply ''generic_response''
                (if message_to_user decision \<noteq> [] then message_to_user decision
                 else ''I'm here to help you create study tickets!''))"

fun action_name :: "ActionType \<Rightarrow> string" where
  "action_name SUGGEST_FIELDS = ''SUGGEST_FIELDS''"
| "action_name UPDATE_FIELD = ''UPDATE_FIELD''"
| "action_name SEARCH_RAG = ''SEARCH_RAG''"
| "action_name APPLY_SUGGESTIONS = ''APPLY_SUGGESTIONS''"
| "action_name SUBMIT_FORM = ''SUBMIT_FORM''"
| "action_name CLARIFY = ''CLARIFY''"
| "action_name GENERIC_RESPONSE = ''GENERIC_RESPONSE''"

definition execute_fallback ::
  "AgentDecision \<Rightarrow> 'a agent_core_scheme \<Rightarrow> error + ('a agent_core_scheme \<times> response)"
where
  \<comment> \<open>the f-string prints the member as \<^verbatim>\<open>ActionType.NAME\<close> (Python 3.11 and later;
      earlier versions print the member's string)\<close>
  "execute_fallback decision ag =
     Inr (ag, reply ''error''
                (''Unknown action: '' @ ''ActionType.'' @ action_name (action decision)))"

definition execute ::
  "string \<Rightarrow> AgentDecision \<Rightarrow> 'a agent_core_scheme \<Rightarrow> error + ('a agent_core_scheme \<times> response)"
where
  "execute stamp decision ag =
     (case action decision of
        SUGGEST_FIELDS \<Rightarrow> execute_suggest_fields decision ag
      | UPDATE_FIELD \<Rightarrow> execute_update_field decision ag
      | SEARCH_RAG \<Rightarrow> execute_search_rag decision ag
      | SUBMIT_FORM \<Rightarrow> execute_submit_form stamp decision ag
      | CLARIFY \<Rightarrow> execute_clarify decision ag
      | GENERIC_RESPONSE \<Rightarrow> execute_generic_response decision ag
      | APPLY_SUGGESTIONS \<Rightarrow> execute_fallback decision ag)"

section \<open>core/config.py and core/studybot\_agent.py\<close>

definition MAX_HISTORY :: int where
  "MAX_HISTORY = 50"

definition GREETING :: string where
  "GREETING =
     waving_hand @ '' Hello! I'll help you create a study ticket.'' @ nl @ nl
     @ speech_balloon @ '' Tell me about your request - include details like:'' @ nl
     @ bullet @ '' Your name'' @ nl
     @ bullet @ '' What analysis you need'' @ nl
     @ bullet @ '' How urgent it is'' @ nl
     @ bullet @ '' Any other relevant information''"

record session =
  session_id :: string
  created_at :: string
  progress_pct :: rat
  pending_suggestions :: "pydict option"
  awaiting_confirmation :: bool
  rag_search_performed :: bool
  initial_extraction_done :: bool
  last_action :: "string option"
  saved_fields :: "pydict option"  \<comment> \<open>the key \<^verbatim>\<open>"fields"\<close>, absent before the first save\<close>
  conversation_history :: "entry list option"

record agent = agent_core +
  conversation :: ConversationManager
  session :: session

text \<open>
  What one turn reads from outside: the model collaborator and three readings of the clock
  (for the two log entries and for the ticket).
  The collaborator's own history and the checkpoint file are outside the model: a save
  is the snapshot that \<^verbatim>\<open>_save_checkpoint\<close> stores in the session dictionary, and a
  restore starts from such a dictionary. An exception that leaves \<^verbatim>\<open>handle_message\<close>
  is the value \<open>Inl\<close>; a run of several messages ends at the first one.
\<close>

record 'j turn =
  llm :: "'j collaborator"
  user_time :: string
  reply_time :: string
  ticket_time :: string

definition initialize_new_session :: "string \<Rightarrow> bool \<Rightarrow> string \<Rightarrow> string \<Rightarrow> agent" where
  \<comment> \<open>\<^verbatim>\<open>__init__\<close> when no checkpoint is found\<close>
  "initialize_new_session sid has_client created greeted =
    \<lparr>field_manager = FieldManager_init,
     rag_service = \<lparr>rag_client = has_client\<rparr>,
     stdout = [],
     conversation =
       add_message (ConversationManager_init MAX_HISTORY) ''assistant'' GREETING
         (Some ''greeting'') greeted,
     session =
       \<lparr>session_id = sid,
        created_at = created,
        progress_pct = 0,
        pending_suggestions = None,
        awaiting_confirmation = False,
        rag_search_performed = False,
        initial_extraction_done = False,
        last_action = None,
        saved_fields = None,
        conversation_history = None\<rparr>\<rparr>"

definition restore_from_checkpoint :: "session \<Rightarrow> bool \<Rightarrow> error + agent" where
  \<comment> \<open>\<^verbatim>\<open>__init__\<close> when the checkpoint's \<^verbatim>\<open>agent_state\<close> is the given session\<close>
  "restore_from_checkpoint saved has_client =
     (let fm = fm_from_dict FieldManager_init
                 (case saved_fields saved of None \<Rightarrow> [] | Some d \<Rightarrow> d);
          conv = (case conversation_history saved of
                    None \<Rightarrow> ConversationManager_init MAX_HISTORY
                  | Some h \<Rightarrow> cm_from_dict (ConversationManager_init MAX_HISTORY) h)
      in case calculate_progress fm of
           Inl e \<Rightarrow> Inl e
         | Inr p \<Rightarrow>
             Inr \<lparr>field_manager = fm,
                  rag_service = \<lparr>rag_client = has_client\<rparr>,
                  stdout = [],
                  conversation = conv,
                  session = saved\<lparr>progress_pct := p\<rparr>\<rparr>)"

definition save_checkpoint :: "agent \<Rightarrow> agent" where
  "save_checkpoint ag =
     ag\<lparr>session := (session ag)
          \<lparr>saved_fields := Some (fm_to_dict (field_manager ag)),
           conversation_history := Some (cm_to_dict (conversation ag))\<rparr>\<rparr>"

definition auto_trigger_rag :: "agent \<Rightarrow> error + agent" where
  "auto_trigger_rag ag =
     (let query = (if truthy (get_field (field_manager ag) ''Problem'')
                   then get_field (field_manager ag) ''Problem''
                   else Some ''study request'');
          ag = ag\<lparr>stdout := stdout ag @ [AUTO_TRIGGER, RAG_SEARCH query]\<rparr>
      in case search (rag_service ag) query of
           Inl e \<Rightarrow> Inl e
         | Inr results \<Rightarrow>
             if num_results results > 0 \<and> found_fields results \<noteq> []
             then
               let new_suggestions =
                     filter (\<lambda>(k, v). \<not> truthy (get_field (field_manager ag) k))
                       (found_fields results)
               in if new_suggestions \<noteq> []
                  then Inr (ag\<lparr>session := (session ag)
                              \<lparr>pending_suggestions := Some new_suggestions,
                               awaiting_confirmation := True,
                               rag_search_performed := True\<rparr>\<rparr>)
                  else Inr ag
             else Inr ag)"

definition get_agent_state :: "agent \<Rightarrow> error + agent_state" where
  "get_agent_state ag =
     (case calculate_progress (field_manager ag) of
        Inl e \<Rightarrow> Inl e
      | Inr progress \<Rightarrow>
          Inr \<lparr>st_progress_pct = progress,
               st_filled_fields = get_filled_fields (field_manager ag),
               st_empty_fields = get_empty_fields (field_manager ag),
               st_awaiting_confirmation = awaiting_confirmation (session ag),
               st_pending_suggestions = pending_suggestions (session ag),
               st_rag_search_performed = rag_search_performed (session ag),
               st_initial_extraction_done = initial_extraction_done (session ag)\<rparr>)"

definition handle_regular_flow :: "'j turn \<Rightarrow> string \<Rightarrow> agent \<Rightarrow> error + (agent \<times> response)" where
  "handle_regular_flow t text ag =
     (case get_agent_state ag of
        Inl e \<Rightarrow> Inl e
      | Inr state \<Rightarrow>
          let decision = decide_action (llm t) text state;
              ag = ag\<lparr>session := (session ag)
                      \<lparr>last_action := Some (action_value (action decision))\<rparr>\<rparr>
          in case execute (ticket_time t) decision ag of
               Inl e \<Rightarrow> Inl e
             | Inr (ag, r) \<Rightarrow>
                 if action_value (action decision) = ''suggest_fields''
                    \<and> dict_truthy (suggested_fields decision)
                 then Inr (ag\<lparr>session := (session ag)
                             \<lparr>pending_suggestions := suggested_fields decision,
                              awaiting_confirmation := True,
                              initial_extraction_done := True\<rparr>\<rparr>, r)
                 else Inr (ag, r))"

definition applied_response :: "FieldManager \<Rightarrow> rat \<Rightarrow> response" where
  \<comment> \<open>what the confirmation branch returns: \<^verbatim>\<open>response_msg\<close> is built right after the
      fields are applied, before the automatic search\<close>
  "applied_response fm progress =
     (let response_msg = check_mark @ '' **Applied!**'' @ nl @ nl
            @ bullets (get_filled_fields fm)
            @ nl @ bar_chart @ '' **Progress:** '' @ str_float1 progress @ ''%''
      in (reply ''apply_suggestions'' response_msg)\<lparr>r_progress_pct := Some progress\<rparr>)"

definition handle_confirmation_flow ::
  "'j turn \<Rightarrow> string \<Rightarrow> agent \<Rightarrow> error + (agent \<times> response)"
where
  "handle_confirmation_flow t text ag =
     (let confirmation = detect_confirmation (llm t) text (pending_suggestions (session ag))
      in if is_confirmation confirmation \<and> cd_confidence confirmation > 6 / 10
         then
           (case pending_suggestions (session ag) of
              None \<Rightarrow> Inl AttributeError
            | Some pending \<Rightarrow>
                let fm = fst (update_fields (field_manager ag) pending)
                in case calculate_progress fm of
                     Inl e \<Rightarrow> Inl e
                   | Inr progress \<Rightarrow>
                       let ag = ag\<lparr>field_manager := fm,
                                   session := (session ag)
                                     \<lparr>awaiting_confirmation := False,
                                      pending_suggestions := None,
                                      progress_pct := progress\<rparr>\<rparr>;
                           r = applied_response fm progress
                       in if \<not> rag_search_performed (session ag) \<and> \<not> is_complete fm
                          then (case auto_trigger_rag ag of
                                  Inl e \<Rightarrow> Inl e
                                | Inr ag \<Rightarrow> Inr (ag, r))
                          else Inr (ag, r))
         else if is_modification_request confirmation
                 \<and> dict_truthy (extracted_modifications confirmation)
         then
           (let fm = fst (update_fields (field_manager ag)
                            (case extracted_modifications confirmation of
                               None \<Rightarrow> [] | Some d \<Rightarrow> d))
            in case calculate_progress fm of
                 Inl e \<Rightarrow> Inl e
               | Inr progress \<Rightarrow>
                   let ag = ag\<lparr>field_manager := fm,
                               session := (session ag)
                                 \<lparr>awaiting_confirmation := False,
                                  pending_suggestions := None,
                                  progress_pct := progress\<rparr>\<rparr>;
                       response_msg = check_mark @ '' **Updated!**'' @ nl @ nl
                         @ bullets (get_filled_fields fm)
                   in Inr (ag, (reply ''modification'' response_msg)
                                 \<lparr>r_progress_pct := Some progress\<rparr>))
         else if is_rejection confirmation
         then
           Inr (ag\<lparr>session := (session ag)
                   \<lparr>awaiting_confirmation := False, pending_suggestions := None\<rparr>\<rparr>,
                reply ''rejection'' ''No problem! What would you like to do instead?'')
         else
           Inr (ag, reply ''unclear_confirmation''
                  ''I'm not sure. Say **'yes'** to apply, **'no'** to cancel, or tell me what to change.''))"

definition handle_message :: "'j turn \<Rightarrow> string \<Rightarrow> agent \<Rightarrow> error + (agent \<times> response)" where
  "handle_message t text ag =
     (let ag = ag\<lparr>conversation := add_message (conversation ag) ''user'' text None (user_time t)\<rparr>
      in case (if awaiting_confirmation (session ag)
               then handle_confirmation_flow t text ag
               else handle_regular_flow t text ag) of
           Inl e \<Rightarrow> Inl e
         | Inr (ag, r) \<Rightarrow>
             Inr (save_checkpoint
                    (ag\<lparr>conversation :=
                         add_message (conversation ag) ''assistant'' (message r)
                           (last_action (session ag)) (reply_time t)\<rparr>), r))"

fun handle_messages :: "agent \<Rightarrow> ('j turn \<times> string) list \<Rightarrow> error + agent" where
  \<comment> \<open>a session's life: the messages handled one after the other\<close>
  "handle_messages ag [] = Inr ag"
| "handle_messages ag ((t, text) # rest) =
     (case handle_message t text ag of
        Inl e \<Rightarrow> Inl e
      | Inr (ag', r) \<Rightarrow> handle_messages ag' rest)"

section \<open>Reachable states of the two stores\<close>

text \<open>
  A field manager is reached from a fresh one by calls of its mutating methods, and a
  conversation manager likewise from an empty one with a given cap.
\<close>

datatype fm_call = Update_fields pydict | From_dict pydict | Reset

fun fm_step :: "FieldManager \<Rightarrow> fm_call \<Rightarrow> FieldManager" where
  "fm_step fm (Update_fields U) = fst (update_fields fm U)"
| "fm_step fm (From_dict D) = fm_from_dict fm D"
| "fm_step fm Reset = reset fm"

definition fm_run :: "fm_call list \<Rightarrow> FieldManager" where
  "fm_run calls = foldl fm_step FieldManager_init calls"

datatype cm_call =
    Add_message string string "string option" string
  | Restore "entry list"
  | Clear

fun cm_step :: "ConversationManager \<Rightarrow> cm_call \<Rightarrow> ConversationManager" where
  "cm_step cm (Add_message r text act stamp) = add_message cm r text act stamp"
| "cm_step cm (Restore h) = cm_from_dict cm h"
| "cm_step cm Clear = clear cm"

definition cm_run :: "int \<Rightarrow> cm_call list \<Rightarrow> ConversationManager" where
  "cm_run cap calls = foldl cm_step (ConversationManager_init cap) calls"

section \<open>Notions for the statements and example turns\<close>

definition timing_out :: "AgentDecision collaborator" where
  "timing_out =
    \<lparr>call_llm = Inl (LLMError ''timeout''),
     json_loads = (\<lambda>s. Inl JSONDecodeError),
     as_decision = (\<lambda>j. Inl ValidationError),
     as_confirmation = (\<lambda>j. Inl ValidationError)\<rparr>"

definition answering :: "AgentDecision \<Rightarrow> AgentDecision collaborator" where
  "answering d =
    \<lparr>call_llm = Inr (Some [Some ''{}'']),
     json_loads = (\<lambda>s. Inr d),
     as_decision = Inr,
     as_confirmation = (\<lambda>j. Inl ValidationError)\<rparr>"

definition no_candidates :: "AgentDecision collaborator" where
  "no_candidates =
    \<lparr>call_llm = Inr (Some []),
     json_loads = (\<lambda>s. Inl JSONDecodeError),
     as_decision = (\<lambda>j. Inl ValidationError),
     as_confirmation = (\<lambda>j. Inl ValidationError)\<rparr>"

definition fresh_state :: agent_state where
  "fresh_state =
    \<lparr>st_progress_pct = 0,
     st_filled_fields = [],
     st_empty_fields = field_names,
     st_awaiting_confirmation = False,
     st_pending_suggestions = None,
     st_rag_search_performed = False,
     st_initial_extraction_done = False\<rparr>"

definition fresh_agent :: agent where
  "fresh_agent = initialize_new_session ''s1'' False ''2024-01-01T00:00:00'' ''2024-01-01T00:00:01''"

definition submit_decision :: AgentDecision where
  "submit_decision =
    \<lparr>action = SUBMIT_FORM,
     reasoning = ''user asked to submit'',
     field_name = None,
     field_value = None,
     search_query = None,
     suggested_fields = None,
     message_to_user = ''Submitting'',
     requires_user_input = False,
     confidence = 9 / 10\<rparr>"

definition filled_agent :: agent where
  "filled_agent =
     fresh_agent\<lparr>field_manager :=
       fst (update_fields FieldManager_init (map (\<lambda>n. (n, Some ''x'')) field_names))\<rparr>"

definition turn_at :: "'j collaborator \<Rightarrow> string \<Rightarrow> 'j turn" where
  "turn_at c stamp = \<lparr>llm = c, user_time = stamp, reply_time = stamp, ticket_time = stamp\<rparr>"

definition suggest :: "pydict \<Rightarrow> AgentDecision" where
  "suggest fs =
    \<lparr>action = SUGGEST_FIELDS,
     reasoning = ''explicit field values'',
     field_name = None,
     field_value = None,
     search_query = None,
     suggested_fields = Some fs,
     message_to_user = ''I found these values'',
     requires_user_input = True,
     confidence = 9 / 10\<rparr>"

definition problem_query :: "FieldManager \<Rightarrow> string option" where
  "problem_query fm =
     (if truthy (get_field fm ''Problem'') then get_field fm ''Problem''
      else Some ''study request'')"

definition final :: "error + agent \<Rightarrow> agent option" where
  "final x = (case x of Inl e \<Rightarrow> None | Inr a \<Rightarrow> Some a)"

definition after :: "error + (agent \<times> response) \<Rightarrow> agent option" where
  "after x = (case x of Inl e \<Rightarrow> None | Inr (a, r) \<Rightarrow> Some a)"

definition session_run :: "bool \<Rightarrow> (AgentDecision turn \<times> string) list \<Rightarrow> error + agent" where
  "session_run has_client turns =
     handle_messages (initialize_new_session ''s1'' has_client ''t0'' ''t0'') turns"

definition model_suggests :: "pydict \<Rightarrow> string \<Rightarrow> AgentDecision turn \<times> string" where
  "model_suggests fs said = (turn_at (answering (suggest fs)) ''t1'', said)"

definition model_fails :: "string \<Rightarrow> AgentDecision turn \<times> string" where
  "model_fails said = (turn_at timing_out ''t2'', said)"

definition auto_triggers :: "agent \<Rightarrow> nat" where
  "auto_triggers a = length (filter (\<lambda>e. e = AUTO_TRIGGER) (stdout a))"

definition awaiting_agent :: "bool \<Rightarrow> agent" where
  "awaiting_agent has_client =
     (initialize_new_session ''s1'' has_client ''t0'' ''t0'')
       \<lparr>session := (session (initialize_new_session ''s1'' has_client ''t0'' ''t0''))
          \<lparr>pending_suggestions := Some [(''Client'', Some ''Acme'')],
           awaiting_confirmation := True\<rparr>\<rparr>"

section \<open>The field manager\<close>

lemma field_names_eq:
  "field_names =
    [''Client'', ''Problem'', ''Discipline'', ''Technique Area'', ''Study Director'',
     ''Study Director Site'', ''Priority'', ''Date Results Required'', ''Sample Type'',
     ''Sample ID'', ''Project Code'', ''Special Instructions'']"
  by (simp add: field_names_def FORM_SCHEMA_def)

lemma empty_fields_eq: "empty_fields = map (\<lambda>n. (n, None)) field_names"
  by (simp add: empty_fields_def field_names_def FORM_SCHEMA_def)

lemma dict_set_keys: "k \<in> fst ` set d \<Longrightarrow> map fst (dict_set d k v) = map fst d"
  by (induction d) force+

lemma map_of_dict_set: "map_of (dict_set d k v) = (map_of d)(k \<mapsto> v)"
  by (induction d) auto

lemma dict_set_new: "k \<notin> fst ` set d \<Longrightarrow> dict_set d k v = d @ [(k, v)]"
  by (induction d) auto

lemma update_loop_fst: "fst (update_loop us (fs, upd)) = from_dict_loop us fs"
  by (induction us arbitrary: fs upd) auto

lemma from_dict_loop_keys: "map fst (from_dict_loop us fs) = map fst fs"
  by (induction us arbitrary: fs) (auto simp: dict_has_def dict_set_keys)

lemma from_dict_loop_filter:
  "from_dict_loop us fs = from_dict_loop (filter (\<lambda>(k, v). k \<in> fst ` set fs) us) fs"
proof (induction us arbitrary: fs)
  case Nil
  show ?case by simp
next
  case (Cons u us)
  obtain k v where u: "u = (k, v)" by (cases u)
  have keys: "k \<in> fst ` set fs \<Longrightarrow> fst ` set (dict_set fs k v) = fst ` set fs"
    using dict_set_keys [of k fs v] by (metis list.set_map)
  show ?case
  proof (cases "k \<in> fst ` set fs")
    case True
    with Cons [of "dict_set fs k v"] keys u show ?thesis
      by (simp add: dict_has_def)
  next
    case False
    with Cons [of fs] u show ?thesis by (simp add: dict_has_def)
  qed
qed

lemma map_of_from_dict_loop:
  "map_of (from_dict_loop us fs) k =
     (if k \<in> fst ` set fs
      then (case map_of (rev us) k of None \<Rightarrow> map_of fs k | Some v \<Rightarrow> Some v)
      else None)"
proof (induction us arbitrary: fs)
  case Nil
  show ?case by (auto simp: map_of_eq_None_iff)
next
  case (Cons u us)
  obtain k' v' where u: "u = (k', v')" by (cases u)
  have keys: "k' \<in> fst ` set fs \<Longrightarrow> fst ` set (dict_set fs k' v') = fst ` set fs"
    using dict_set_keys [of k' fs v'] by (metis list.set_map)
  show ?case
  proof (cases "k' \<in> fst ` set fs")
    case True
    then show ?thesis
      using Cons [of "dict_set fs k' v'"] keys u
      by (auto simp: dict_has_def map_of_dict_set map_add_def split: option.splits)
  next
    case False
    then show ?thesis
      using Cons [of fs] u
      by (auto simp: dict_has_def map_add_def split: option.splits)
  qed
qed

lemma same_keys_same_map:
  assumes "map fst xs = map fst ys" "distinct (map fst xs)" "map_of xs = map_of ys"
  shows "xs = ys"
proof -
  have "map snd xs = map snd ys"
  proof (rule map_of_zip_inject [of _ "map fst xs"])
    show "map_of (zip (map fst xs) (map snd xs)) = map_of (zip (map fst xs) (map snd ys))"
      using assms by (simp add: zip_map_fst_snd) (metis assms(1) zip_map_fst_snd)
  qed (use assms in \<open>simp_all, metis length_map\<close>)
  with assms(1) show ?thesis
    by (metis zip_map_fst_snd)
qed

lemma distinct_field_names: "distinct field_names"
  by (simp add: field_names_eq)

lemma length_field_names: "length field_names = 12"
  by (simp add: field_names_eq)

lemma dict_get_map_of:
  "dict_get d k = (case map_of d k of None \<Rightarrow> None | Some v \<Rightarrow> v)"
  by (simp add: dict_get_def)

lemma filled_count_card:
  assumes "distinct (map fst d)"
  shows "length (filter truthy (map snd d)) = card {k \<in> fst ` set d. truthy (dict_get d k)}"
  using assms
proof (induction d)
  case Nil
  show ?case by simp
next
  case (Cons p d)
  obtain k v where p: "p = (k, v)" by (cases p)
  from Cons.prems p have fresh: "k \<notin> fst ` set d" and dist: "distinct (map fst d)"
    by auto
  have other: "\<And>k' b. (k', b) \<in> set d \<Longrightarrow> dict_get (p # d) k' = dict_get d k'"
    using fresh p by (force simp: dict_get_def)
  have here: "dict_get (p # d) k = v"
    using p by (simp add: dict_get_def)
  let ?S = "{k' \<in> fst ` set d. truthy (dict_get d k')}"
  have fin: "finite ?S" by simp
  have notin: "k \<notin> ?S" using fresh by simp
  have split: "{k' \<in> fst ` set (p # d). truthy (dict_get (p # d) k')} =
      (if truthy v then insert k ?S else ?S)"
    using other here p fresh by auto
  show ?case
    using Cons.IH [OF dist] split fin notin p by simp
qed

lemma py_round1_bounds:
  assumes "0 \<le> x" "x \<le> 100"
  shows "0 \<le> py_round1 x \<and> py_round1 x \<le> 100"
proof -
  define t where "t = x * 10"
  define f where "f = \<lfloor>t\<rfloor>"
  have t: "0 \<le> t" "t \<le> 1000" using assms by (simp_all add: t_def)
  have f0: "0 \<le> f" using t by (simp add: f_def)
  have f1: "f \<le> 1000" using t unfolding f_def by (simp add: floor_le_iff) 
  have up: "0 < t - of_int f \<Longrightarrow> f + 1 \<le> 1000"
  proof -
    assume "0 < t - of_int f"
    then have "of_int f < t" by simp
    with t have "of_int f < (1000::rat)" by simp
    then show ?thesis by simp
  qed
  define r where "r = (if t - of_int f < 1 / 2 then f
                 else if 1 / 2 < t - of_int f then f + 1
                 else if even f then f else f + 1)"
  have r: "0 \<le> r \<and> r \<le> 1000"
    unfolding r_def using f0 f1 up by auto
  have "py_round1 x = of_int r / 10"
    by (simp add: py_round1_def Let_def t_def f_def r_def)
  moreover have "(0::rat) \<le> of_int r / 10 \<and> (of_int r / 10 :: rat) \<le> 100"
    using r by simp
  ultimately show ?thesis by simp
qed

lemma progress_values:
  "map (\<lambda>n. py_round1 ((of_nat n / of_nat 12) * 100)) [0, 1, 2, 3, 4, 5, 6, 7, 8, 9, 10, 11, 12] =
     [0, 83 / 10, 167 / 10, 25, 333 / 10, 417 / 10, 50, 583 / 10, 667 / 10, 75, 833 / 10,
      917 / 10, 100]"
  by code_simp

lemma calculate_progress_schema:
  assumes "map fst (fm_fields fm) = field_names"
  shows "calculate_progress fm =
     Inr (py_round1 (100 * of_nat (card {k \<in> set field_names. truthy (get_field fm k)})
                     / of_nat (length FORM_SCHEMA)))"
proof -
  have len: "length (fm_fields fm) = 12"
    using assms length_field_names by (metis length_map)
  have dist: "distinct (map fst (fm_fields fm))"
    using assms distinct_field_names by simp
  have keys: "fst ` set (fm_fields fm) = set field_names"
    using assms by (metis list.set_map)
  have "length (filter truthy (map snd (fm_fields fm))) =
        card {k \<in> set field_names. truthy (get_field fm k)}"
    using filled_count_card [OF dist] keys by (simp add: get_field_def)
  then show ?thesis
    using len by (simp add: calculate_progress_def Let_def FORM_SCHEMA_def)
qed

lemma progress_range:
  assumes "map fst (fm_fields fm) = field_names"
  shows "\<exists>p. calculate_progress fm = Inr p \<and> 0 \<le> p \<and> p \<le> 100"
proof -
  let ?n = "card {k \<in> set field_names. truthy (get_field fm k)}"
  have "?n \<le> card (set field_names)"
    by (rule card_mono) auto
  also have "\<dots> \<le> 12"
    using length_field_names card_length [of field_names] by simp
  finally have n: "?n \<le> 12" .
  have x: "(0::rat) \<le> 100 * of_nat ?n / 12 \<and> (100 * of_nat ?n / 12 :: rat) \<le> 100"
    using n by simp
  show ?thesis
    using calculate_progress_schema [OF assms] py_round1_bounds [of "100 * of_nat ?n / 12"] x
    by (simp add: FORM_SCHEMA_def)
qed

lemma update_fields_fields:
  "fm_fields (fst (update_fields fm U)) = from_dict_loop U (fm_fields fm)"
  using update_loop_fst [of U "fm_fields fm" "[]"]
  by (cases "update_loop U (fm_fields fm, [])") (simp add: update_fields_def)

lemma update_fields_keys:
  "map fst (fm_fields (fst (update_fields fm U))) = map fst (fm_fields fm)"
  by (simp add: update_fields_fields from_dict_loop_keys)

lemma get_field_update_fields:
  assumes "distinct (map fst U)" "(k, v) \<in> set U" "k \<in> fst ` set (fm_fields fm)"
  shows "get_field (fst (update_fields fm U)) k = v"
proof -
  have "map_of (rev U) k = Some v"
    using assms(1,2) by (intro map_of_is_SomeI) (simp_all add: rev_map [symmetric])
  then show ?thesis
    using assms(3)
    by (simp add: get_field_def dict_get_def update_fields_fields map_of_from_dict_loop)
qed

lemma get_field_update_fields_other:
  assumes "k \<notin> fst ` set U"
  shows "get_field (fst (update_fields fm U)) k = get_field fm k"
proof -
  have r: "map_of (rev U) k = None"
    using assms by (simp add: map_of_eq_None_iff)
  have "map_of (from_dict_loop U (fm_fields fm)) k = map_of (fm_fields fm) k"
  proof (cases "k \<in> fst ` set (fm_fields fm)")
    case True
    then show ?thesis by (simp add: map_of_from_dict_loop r)
  next
    case False
    then have "map_of (fm_fields fm) k = None" by (simp add: map_of_eq_None_iff)
    with False show ?thesis by (simp add: map_of_from_dict_loop)
  qed
  then show ?thesis
    by (simp add: get_field_def dict_get_def update_fields_fields)
qed

lemma update_loop_snd_new:
  assumes "distinct (map fst U)" "fst ` set U \<subseteq> fst ` set fs" "fst ` set U \<inter> fst ` set upd = {}"
  shows "snd (update_loop U (fs, upd)) = upd @ U"
  using assms
proof (induction U arbitrary: fs upd)
  case Nil
  show ?case by simp
next
  case (Cons u U)
  obtain k v where u: "u = (k, v)" by (cases u)
  have keys: "fst ` set (dict_set fs k v) = fst ` set fs"
    using dict_set_keys [of k fs v] Cons.prems(2) u by (metis insert_subset list.set_map list.simps(15) image_insert fst_conv)
  have new: "dict_set upd k v = upd @ [(k, v)]"
    using Cons.prems(3) u by (intro dict_set_new) auto
  have "snd (update_loop U (dict_set fs k v, upd @ [(k, v)])) = (upd @ [(k, v)]) @ U"
  proof (rule Cons.IH)
    show "distinct (map fst U)" using Cons.prems(1) by simp
    show "fst ` set U \<subseteq> fst ` set (dict_set fs k v)" using Cons.prems(2) keys by auto
    show "fst ` set U \<inter> fst ` set (upd @ [(k, v)]) = {}"
      using Cons.prems(1,3) u by auto
  qed
  then show ?case
    using Cons.prems(2) u new by (simp add: dict_has_def)
qed

lemma update_fields_applied:
  assumes "distinct (map fst U)" "fst ` set U \<subseteq> fst ` set (fm_fields fm)"
  shows "snd (update_fields fm U) = U"
  using update_loop_snd_new [of U "fm_fields fm" "[]"] assms
  by (cases "update_loop U (fm_fields fm, [])") (simp add: update_fields_def)

text \<open>
  Claim C4. Let the field manager hold exactly the schema's keys and let \<open>U\<close> be an update
  dictionary (distinct keys) whose keys all belong to the schema. After
  \<^verbatim>\<open>update_fields(U)\<close>, \<^verbatim>\<open>get_field(k)\<close> returns \<open>U[k]\<close> for every key of \<open>U\<close>;
  \<^verbatim>\<open>calculate_progress()\<close> returns, computed from the fields as they are now, 100 times
  the number of filled schema keys divided by the schema's size, rounded to one decimal
  place; and that number lies between 0 and 100.
\<close>
theorem update_then_get_and_progress:
  assumes wf: "map fst (fm_fields fm) = field_names"
    and dist: "distinct (map fst U)"
    and keys: "fst ` set U \<subseteq> set field_names"
  shows "(\<forall>(k, v) \<in> set U. get_field (fst (update_fields fm U)) k = v)
    \<and> calculate_progress (fst (update_fields fm U)) =
        Inr (py_round1
          (100 * of_nat (card {k \<in> set field_names. truthy (get_field (fst (update_fields fm U)) k)})
           / of_nat (length FORM_SCHEMA)))
    \<and> (\<exists>p. calculate_progress (fst (update_fields fm U)) = Inr p \<and> 0 \<le> p \<and> p \<le> 100)"
proof -
  let ?fm = "fst (update_fields fm U)"
  have wf': "map fst (fm_fields ?fm) = field_names"
    using wf by (simp add: update_fields_keys)
  have fs: "fst ` set (fm_fields fm) = set field_names"
    using wf by (metis list.set_map)
  have "\<forall>(k, v) \<in> set U. get_field ?fm k = v"
  proof (clarify)
    fix k v assume kv: "(k, v) \<in> set U"
    then have "k \<in> fst ` set (fm_fields fm)" using keys fs by force
    with dist kv show "get_field ?fm k = v" by (rule get_field_update_fields)
  qed
  then show ?thesis
    using calculate_progress_schema [OF wf'] progress_range [OF wf'] by blast
qed

lemma fm_init_fields:
  "fm_fields FieldManager_init = map (\<lambda>n. (n, None)) field_names"
  by (simp add: FieldManager_init_def empty_fields_eq)

lemma fm_init_keys: "map fst (fm_fields FieldManager_init) = field_names"
  by (simp add: fm_init_fields comp_def)

theorem update_then_get_and_progress_witness:
  "map fst (fm_fields FieldManager_init) = field_names
   \<and> distinct (map fst [(''Client'', Some ''Acme''), (''Priority'', Some ''High'')])
   \<and> fst ` set [(''Client'', Some ''Acme''), (''Priority'', Some ''High'')] \<subseteq> set field_names
   \<and> get_field (fst (update_fields FieldManager_init
         [(''Client'', Some ''Acme''), (''Priority'', Some ''High'')])) ''Client'' = Some ''Acme''
   \<and> get_field (fst (update_fields FieldManager_init
         [(''Client'', Some ''Acme''), (''Priority'', Some ''High'')])) ''Priority'' = Some ''High''
   \<and> calculate_progress (fst (update_fields FieldManager_init
         [(''Client'', Some ''Acme''), (''Priority'', Some ''High'')])) = Inr (167 / 10)"
proof -
  let ?U = "[(''Client'', Some ''Acme''), (''Priority'', Some ''High'')]"
  have h1: "map fst (fm_fields FieldManager_init) = field_names" by (rule fm_init_keys)
  have h2: "distinct (map fst ?U)" by simp
  have h3: "fst ` set ?U \<subseteq> set field_names" by (simp add: field_names_eq)
  have p: "calculate_progress (fst (update_fields FieldManager_init ?U)) = Inr (167 / 10)"
    by code_simp
  from update_then_get_and_progress [OF h1 h2 h3] h1 h2 h3 p show ?thesis by simp
qed

lemma get_filled_fields_keys:
  assumes "distinct (map fst (fm_fields fm))"
  shows "k \<in> fst ` set (get_filled_fields fm) \<longleftrightarrow>
         k \<in> fst ` set (fm_fields fm) \<and> truthy (get_field fm k)"
proof -
  have "\<And>v. (k, v) \<in> set (fm_fields fm) \<Longrightarrow> get_field fm k = v"
    using assms by (simp add: get_field_def dict_get_def)
  then show ?thesis
    by (force simp: get_filled_fields_def)
qed

lemma get_empty_fields_keys:
  assumes "distinct (map fst (fm_fields fm))"
  shows "k \<in> set (get_empty_fields fm) \<longleftrightarrow>
         k \<in> fst ` set (fm_fields fm) \<and> \<not> truthy (get_field fm k)"
proof -
  have "\<And>v. (k, v) \<in> set (fm_fields fm) \<Longrightarrow> get_field fm k = v"
    using assms by (simp add: get_field_def dict_get_def)
  then show ?thesis
    by (force simp: get_empty_fields_def)
qed

lemma is_complete_iff:
  assumes "distinct (map fst (fm_fields fm))"
  shows "is_complete fm \<longleftrightarrow> (\<forall>k \<in> fst ` set (fm_fields fm). truthy (get_field fm k))"
proof -
  have "\<And>k v. (k, v) \<in> set (fm_fields fm) \<Longrightarrow> get_field fm k = v"
    using assms by (simp add: get_field_def dict_get_def)
  then show ?thesis
    by (force simp: is_complete_def list_all_iff)
qed

text \<open>
  Claim C10. For every schema field \<open>f\<close>, \<^verbatim>\<open>update_fields({f: ""})\<close> is accepted and
  reports \<open>f\<close> in the dictionary it returns, and the stored value is the empty string;
  yet \<open>f\<close> is not among the filled fields, is among the empty fields, is not counted by
  the progress (which counts only the other fields that were filled before), and the form
  is not complete.
\<close>
theorem empty_string_update_counts_as_unset:
  assumes wf: "map fst (fm_fields fm) = field_names"
    and f: "f \<in> set field_names"
  shows "snd (update_fields fm [(f, Some '''')]) = [(f, Some '''')]
    \<and> get_field (fst (update_fields fm [(f, Some '''')])) f = Some ''''
    \<and> f \<notin> fst ` set (get_filled_fields (fst (update_fields fm [(f, Some '''')])))
    \<and> f \<in> set (get_empty_fields (fst (update_fields fm [(f, Some '''')])))
    \<and> \<not> is_complete (fst (update_fields fm [(f, Some '''')]))
    \<and> calculate_progress (fst (update_fields fm [(f, Some '''')])) =
        Inr (py_round1
          (100 * of_nat (card {k \<in> set field_names - {f}. truthy (get_field fm k)})
           / of_nat (length FORM_SCHEMA)))"
proof -
  let ?U = "[(f, Some '''')]"
  let ?fm = "fst (update_fields fm ?U)"
  have fs: "fst ` set (fm_fields fm) = set field_names"
    using wf by (metis list.set_map)
  have wf': "map fst (fm_fields ?fm) = field_names"
    using wf by (simp add: update_fields_keys)
  have fs': "fst ` set (fm_fields ?fm) = set field_names"
    using wf' by (metis list.set_map)
  have dist': "distinct (map fst (fm_fields ?fm))"
    using wf' distinct_field_names by simp
  have applied: "snd (update_fields fm ?U) = ?U"
    using f fs by (intro update_fields_applied) simp_all
  have got: "get_field ?fm f = Some ''''"
    using f fs by (intro get_field_update_fields) simp_all
  have other: "\<And>k. k \<noteq> f \<Longrightarrow> get_field ?fm k = get_field fm k"
    by (intro get_field_update_fields_other) simp
  have unset: "\<not> truthy (get_field ?fm f)"
    using got by (simp add: truthy_def)
  have "{k \<in> set field_names. truthy (get_field ?fm k)} =
        {k \<in> set field_names - {f}. truthy (get_field fm k)}"
    using unset other by (auto, metis+)
  then have prog: "calculate_progress ?fm =
        Inr (py_round1
          (100 * of_nat (card {k \<in> set field_names - {f}. truthy (get_field fm k)})
           / of_nat (length FORM_SCHEMA)))"
    using calculate_progress_schema [OF wf'] by simp
  have nf: "f \<notin> fst ` set (get_filled_fields ?fm)"
    using unset by (simp add: get_filled_fields_keys [OF dist'])
  have em: "f \<in> set (get_empty_fields ?fm)"
    using unset f fs' by (simp add: get_empty_fields_keys [OF dist'])
  have nc: "\<not> is_complete ?fm"
    using unset f fs' by (auto simp: is_complete_iff [OF dist'])
  from applied got nf em nc prog show ?thesis by blast
qed

theorem empty_string_update_counts_as_unset_witness:
  "map fst (fm_fields FieldManager_init) = field_names
   \<and> ''Client'' \<in> set field_names
   \<and> snd (update_fields FieldManager_init [(''Client'', Some '''')]) = [(''Client'', Some '''')]
   \<and> get_field (fst (update_fields FieldManager_init [(''Client'', Some '''')])) ''Client'' = Some ''''
   \<and> ''Client'' \<in> set (get_empty_fields (fst (update_fields FieldManager_init [(''Client'', Some '''')])))
   \<and> \<not> is_complete (fst (update_fields FieldManager_init [(''Client'', Some '''')]))
   \<and> calculate_progress (fst (update_fields FieldManager_init [(''Client'', Some '''')])) = Inr 0"
proof -
  have h1: "map fst (fm_fields FieldManager_init) = field_names" by (rule fm_init_keys)
  have h2: "''Client'' \<in> set field_names" by (simp add: field_names_eq)
  have p: "calculate_progress (fst (update_fields FieldManager_init [(''Client'', Some '''')])) = Inr 0"
    by code_simp
  from empty_string_update_counts_as_unset [OF h1 h2] h1 h2 p show ?thesis by simp
qed

lemma update_loop_filter:
  "update_loop us (fs, upd) = update_loop (filter (\<lambda>(k, v). k \<in> fst ` set fs) us) (fs, upd)"
proof (induction us arbitrary: fs upd)
  case Nil
  show ?case by simp
next
  case (Cons u us)
  obtain k v where u: "u = (k, v)" by (cases u)
  have keys: "k \<in> fst ` set fs \<Longrightarrow> fst ` set (dict_set fs k v) = fst ` set fs"
    using dict_set_keys [of k fs v] by (metis list.set_map)
  show ?case
  proof (cases "k \<in> fst ` set fs")
    case True
    with Cons [of "dict_set fs k v" "dict_set upd k v"] keys u show ?thesis
      by (simp add: dict_has_def)
  next
    case False
    with Cons [of fs upd] u show ?thesis by (simp add: dict_has_def)
  qed
qed

lemma update_loop_snd_keys:
  "fst ` set (snd (update_loop us (fs, upd))) \<subseteq> fst ` set upd \<union> (fst ` set us \<inter> fst ` set fs)"
proof (induction us arbitrary: fs upd)
  case Nil
  show ?case by simp
next
  case (Cons u us)
  obtain k v where u: "u = (k, v)" by (cases u)
  have keys: "k \<in> fst ` set fs \<Longrightarrow> fst ` set (dict_set fs k v) = fst ` set fs"
    using dict_set_keys [of k fs v] by (metis list.set_map)
  have upd: "fst ` set (dict_set upd k v) = insert k (fst ` set upd)"
    by (metis dom_map_of_conv_image_fst map_of_dict_set dom_fun_upd option.distinct(1))
  show ?case
  proof (cases "k \<in> fst ` set fs")
    case True
    with Cons [of "dict_set fs k v" "dict_set upd k v"] keys upd u show ?thesis
      by (auto simp: dict_has_def)
  next
    case False
    with Cons [of fs upd] u show ?thesis by (auto simp: dict_has_def)
  qed
qed

lemma fm_from_dict_keys:
  "map fst (fm_fields (fm_from_dict fm D)) = map fst (fm_fields fm)"
  by (simp add: fm_from_dict_def from_dict_loop_keys)

lemma fm_step_keys:
  "map fst (fm_fields fm) = field_names \<Longrightarrow> map fst (fm_fields (fm_step fm c)) = field_names"
  by (cases c) (simp_all add: update_fields_keys fm_from_dict_keys reset_def empty_fields_eq comp_def)

lemma foldl_fm_step_keys:
  "map fst (fm_fields fm) = field_names \<Longrightarrow>
   map fst (fm_fields (foldl fm_step fm calls)) = field_names"
  by (induction calls arbitrary: fm) (simp_all add: fm_step_keys)

lemma fm_run_keys: "map fst (fm_fields (fm_run calls)) = field_names"
  unfolding fm_run_def by (rule foldl_fm_step_keys) (rule fm_init_keys)

lemma update_fields_ignores:
  assumes "map fst (fm_fields fm) = field_names"
  shows "update_fields fm U = update_fields fm (filter (\<lambda>(k, v). k \<in> set field_names) U)"
proof -
  have fs: "fst ` set (fm_fields fm) = set field_names"
    using assms by (metis list.set_map)
  show ?thesis
    using update_loop_filter [of U "fm_fields fm" "[]"] fs
    by (simp add: update_fields_def)
qed

lemma update_fields_applied_keys:
  assumes "map fst (fm_fields fm) = field_names"
  shows "fst ` set (snd (update_fields fm U)) \<subseteq> set field_names \<inter> fst ` set U"
proof -
  have fs: "fst ` set (fm_fields fm) = set field_names"
    using assms by (metis list.set_map)
  show ?thesis
    using update_loop_snd_keys [of U "fm_fields fm" "[]"] fs
    by (cases "update_loop U (fm_fields fm, [])") (auto simp: update_fields_def)
qed

lemma fm_from_dict_ignores:
  assumes "map fst (fm_fields fm) = field_names"
  shows "fm_from_dict fm D = fm_from_dict fm (filter (\<lambda>(k, v). k \<in> set field_names) D)"
proof -
  have fs: "fst ` set (fm_fields fm) = set field_names"
    using assms by (metis list.set_map)
  show ?thesis
    using from_dict_loop_filter [of D "fm_fields fm"] fs
    by (simp add: fm_from_dict_def)
qed

lemma get_field_non_schema:
  assumes "map fst (fm_fields fm) = field_names" "k \<notin> set field_names"
  shows "get_field fm k = None"
proof -
  have "k \<notin> fst ` set (fm_fields fm)"
    using assms by (metis list.set_map)
  then have "map_of (fm_fields fm) k = None"
    by (simp add: map_of_eq_None_iff)
  then show ?thesis by (simp add: get_field_def dict_get_def)
qed

text \<open>
  Claim C5. In every state reached from a fresh field manager by \<^verbatim>\<open>update_fields\<close>,
  \<^verbatim>\<open>from_dict\<close> and \<^verbatim>\<open>reset\<close>, the keys of the mapping are exactly the schema's
  field names, in the schema's order. \<^verbatim>\<open>update_fields(U)\<close> does the same as the update
  with the non-schema keys of \<open>U\<close> removed: no such key is stored or returned in the
  applied subset, its lookup stays \<^verbatim>\<open>None\<close>, and the call returns (the model's function
  is total, no error value exists for it). \<^verbatim>\<open>from_dict\<close> drops unknown keys in the
  same way.
\<close>
theorem key_set_is_the_schema:
  "map fst (fm_fields (fm_run calls)) = field_names
   \<and> map fst (fm_fields (fst (update_fields (fm_run calls) U))) = field_names
   \<and> update_fields (fm_run calls) U =
       update_fields (fm_run calls) (filter (\<lambda>(k, v). k \<in> set field_names) U)
   \<and> fst ` set (snd (update_fields (fm_run calls) U)) \<subseteq> set field_names \<inter> fst ` set U
   \<and> (k \<notin> set field_names \<longrightarrow>
        get_field (fm_run calls) k = None
        \<and> get_field (fst (update_fields (fm_run calls) U)) k = None
        \<and> k \<notin> fst ` set (snd (update_fields (fm_run calls) U))
        \<and> get_field (fm_from_dict (fm_run calls) D) k = None)
   \<and> map fst (fm_fields (fm_from_dict (fm_run calls) D)) = field_names
   \<and> fm_from_dict (fm_run calls) D =
       fm_from_dict (fm_run calls) (filter (\<lambda>(k, v). k \<in> set field_names) D)"
proof -
  let ?fm = "fm_run calls"
  have wf: "map fst (fm_fields ?fm) = field_names" by (rule fm_run_keys)
  have wf1: "map fst (fm_fields (fst (update_fields ?fm U))) = field_names"
    using wf by (simp add: update_fields_keys)
  have wf2: "map fst (fm_fields (fm_from_dict ?fm D)) = field_names"
    using wf by (simp add: fm_from_dict_keys)
  have sub: "fst ` set (snd (update_fields ?fm U)) \<subseteq> set field_names \<inter> fst ` set U"
    by (rule update_fields_applied_keys [OF wf])
  have non: "k \<notin> set field_names \<Longrightarrow>
        get_field ?fm k = None
        \<and> get_field (fst (update_fields ?fm U)) k = None
        \<and> k \<notin> fst ` set (snd (update_fields ?fm U))
        \<and> get_field (fm_from_dict ?fm D) k = None"
    using get_field_non_schema [OF wf] get_field_non_schema [OF wf1]
      get_field_non_schema [OF wf2] sub by blast
  show ?thesis
    using wf wf1 wf2 sub non update_fields_ignores [OF wf, of U] fm_from_dict_ignores [OF wf, of D]
    by blast
qed

theorem key_set_is_the_schema_witness:
  "''Budget'' \<notin> set field_names
   \<and> map fst (fm_fields (fm_run [Update_fields [(''Client'', Some ''Acme'')], Reset])) = field_names
   \<and> update_fields (fm_run [Update_fields [(''Client'', Some ''Acme'')], Reset])
        [(''Budget'', Some ''10''), (''Priority'', Some ''High'')] =
      update_fields (fm_run [Update_fields [(''Client'', Some ''Acme'')], Reset])
        [(''Priority'', Some ''High'')]
   \<and> get_field (fst (update_fields (fm_run [Update_fields [(''Client'', Some ''Acme'')], Reset])
        [(''Budget'', Some ''10''), (''Priority'', Some ''High'')])) ''Budget'' = None
   \<and> ''Budget'' \<notin> fst ` set (snd (update_fields (fm_run [Update_fields [(''Client'', Some ''Acme'')], Reset])
        [(''Budget'', Some ''10''), (''Priority'', Some ''High'')]))
   \<and> get_field (fm_from_dict (fm_run [Update_fields [(''Client'', Some ''Acme'')], Reset])
        [(''Budget'', Some ''10''), (''Priority'', Some ''High'')]) ''Budget'' = None"
proof -
  have h: "''Budget'' \<notin> set field_names" by (simp add: field_names_eq)
  have e: "filter (\<lambda>(k, v). k \<in> set field_names) [(''Budget'', Some ''10''), (''Priority'', Some ''High'')]
           = [(''Priority'', Some ''High'')]"
    by (simp add: field_names_eq)
  note t = key_set_is_the_schema [of "[Update_fields [(''Client'', Some ''Acme'')], Reset]"
      "[(''Budget'', Some ''10''), (''Priority'', Some ''High'')]" "''Budget''"
      "[(''Budget'', Some ''10''), (''Priority'', Some ''High'')]", unfolded e]
  from t h show ?thesis by blast
qed

lemma fm_round_trip:
  assumes "map fst (fm_fields fm) = field_names" "map fst (fm_fields fm0) = field_names"
  shows "fm_fields (fm_from_dict fm0 (fm_to_dict fm)) = fm_fields fm"
proof -
  let ?r = "from_dict_loop (fm_fields fm) (fm_fields fm0)"
  have dist: "distinct (map fst (fm_fields fm))"
    using assms(1) distinct_field_names by simp
  have k: "map fst ?r = map fst (fm_fields fm)"
    using assms by (simp add: from_dict_loop_keys)
  have fs: "fst ` set (fm_fields fm0) = fst ` set (fm_fields fm)"
    using assms by (metis list.set_map)
  have "map_of ?r k = map_of (fm_fields fm) k" for k
  proof (cases "map_of (fm_fields fm) k")
    case None
    then have "k \<notin> fst ` set (fm_fields fm0)"
      using fs by (simp add: map_of_eq_None_iff)
    then show ?thesis using None by (simp add: map_of_from_dict_loop)
  next
    case (Some v)
    then have in_set: "(k, v) \<in> set (fm_fields fm)" by (rule map_of_SomeD)
    then have "k \<in> fst ` set (fm_fields fm0)" using fs by force
    moreover have "map_of (rev (fm_fields fm)) k = Some v"
      using dist in_set by (intro map_of_is_SomeI) (simp_all add: rev_map [symmetric])
    ultimately show ?thesis using Some by (simp add: map_of_from_dict_loop)
  qed
  then have "map_of ?r = map_of (fm_fields fm)" by (rule ext)
  with k dist have "?r = fm_fields fm"
    by (intro same_keys_same_map) simp_all
  then show ?thesis by (simp add: fm_from_dict_def fm_to_dict_def)
qed

section \<open>Conversation log, decisions, the orchestrator\<close>

lemma py_last_pos: "0 < n \<Longrightarrow> py_last n xs = drop (length xs - nat n) xs"
  by (simp add: py_last_def)

lemma py_last_zero: "py_last 0 xs = xs"
  by (simp add: py_last_def)

lemma py_last_fits: "0 \<le> n \<Longrightarrow> int (length xs) \<le> n \<Longrightarrow> py_last n xs = xs"
  by (simp add: py_last_def)

lemma length_py_last: "0 < n \<Longrightarrow> int (length (py_last n xs)) \<le> n"
  by (simp add: py_last_def)

lemma add_message_history:
  "history (add_message cm r text act stamp) =
     (let appended = history cm @ [\<lparr>role = r, content = text, timestamp = stamp, entry_action = act\<rparr>]
      in if int (length appended) > max_history cm then py_last (max_history cm) appended
         else appended)"
  by (simp add: add_message_def Let_def)

lemma add_message_cap [simp]: "max_history (add_message cm r text act stamp) = max_history cm"
  by (simp add: add_message_def Let_def)

lemma cm_from_dict_cap [simp]: "max_history (cm_from_dict cm h) = max_history cm"
  by (simp add: cm_from_dict_def)

lemma clear_cap [simp]: "max_history (clear cm) = max_history cm"
  by (simp add: clear_def)

lemma cm_step_cap [simp]: "max_history (cm_step cm c) = max_history cm"
  by (cases c) simp_all

lemma foldl_cm_step_cap: "max_history (foldl cm_step cm calls) = max_history cm"
  by (induction calls arbitrary: cm) simp_all

lemma cm_run_cap: "max_history (cm_run cap calls) = cap"
  by (simp add: cm_run_def foldl_cm_step_cap ConversationManager_init_def)

lemma add_message_bounded:
  assumes "1 \<le> max_history cm"
  shows "int (length (history (add_message cm r text act stamp))) \<le> max_history cm"
proof -
  let ?e = "\<lparr>role = r, content = text, timestamp = stamp, entry_action = act\<rparr>"
  show ?thesis
  proof (cases "int (length (history cm @ [?e])) > max_history cm")
    case True
    then have "history (add_message cm r text act stamp) = py_last (max_history cm) (history cm @ [?e])"
      by (simp add: add_message_history Let_def)
    then show ?thesis
      using length_py_last [of "max_history cm" "history cm @ [?e]"] assms by simp
  next
    case False
    then show ?thesis by (simp add: add_message_history Let_def)
  qed
qed

lemma add_message_fifo:
  assumes "1 \<le> max_history cm"
  shows "history (add_message cm r text act stamp) =
     drop (length (history cm) + 1 - nat (max_history cm))
       (history cm @ [\<lparr>role = r, content = text, timestamp = stamp, entry_action = act\<rparr>])"
  using assms by (auto simp: add_message_history Let_def py_last_def)

lemma cm_step_bounded:
  assumes "1 \<le> max_history cm" "int (length (history cm)) \<le> max_history cm"
  shows "int (length (history (cm_step cm c))) \<le> max_history cm"
proof (cases c)
  case (Add_message r body act stamp)
  then show ?thesis using add_message_bounded [OF assms(1)] by simp
next
  case (Restore h)
  then show ?thesis
    using assms(1) length_py_last [of "max_history cm" h] by (simp add: cm_from_dict_def)
next
  case Clear
  then show ?thesis using assms(1) by (simp add: clear_def)
qed

lemma foldl_cm_step_bounded:
  assumes "1 \<le> max_history cm" "int (length (history cm)) \<le> max_history cm"
  shows "int (length (history (foldl cm_step cm calls))) \<le> max_history cm"
  using assms
proof (induction calls arbitrary: cm)
  case Nil
  then show ?case by simp
next
  case (Cons c calls)
  have "int (length (history (foldl cm_step (cm_step cm c) calls))) \<le> max_history (cm_step cm c)"
    using Cons.prems cm_step_bounded [of cm c] by (intro Cons.IH) simp_all
  then show ?case by simp
qed

lemma cm_run_bounded:
  assumes "1 \<le> cap"
  shows "int (length (history (cm_run cap calls))) \<le> cap"
  using foldl_cm_step_bounded [of "ConversationManager_init cap" calls] assms
  by (simp add: cm_run_def ConversationManager_init_def)

lemma cm_round_trip:
  assumes "0 \<le> cap"
  shows "cm_from_dict (ConversationManager_init cap) (cm_to_dict (cm_run cap calls)) = cm_run cap calls"
proof -
  let ?cm = "cm_run cap calls"
  have "py_last cap (history ?cm) = history ?cm"
  proof (cases "cap = 0")
    case True
    then show ?thesis by (simp add: py_last_zero)
  next
    case False
    with assms have "1 \<le> cap" by simp
    from cm_run_bounded [OF this] assms show ?thesis by (intro py_last_fits)
  qed
  then have "cm_from_dict (ConversationManager_init cap) (cm_to_dict ?cm)
           = \<lparr>history = history ?cm, max_history = cap\<rparr>"
    by (simp add: cm_from_dict_def cm_to_dict_def ConversationManager_init_def)
  also have "\<dots> = ?cm"
    using cm_run_cap [of cap calls] by (cases ?cm) simp
  finally show ?thesis .
qed

lemma fm_round_trip_eq:
  "fm_from_dict FieldManager_init (fm_to_dict (fm_run calls)) = fm_run calls"
proof -
  have "fm_fields (fm_from_dict FieldManager_init (fm_to_dict (fm_run calls))) = fm_fields (fm_run calls)"
    by (rule fm_round_trip [OF fm_run_keys fm_init_keys])
  then show ?thesis
    by (cases "fm_run calls") (simp add: fm_from_dict_def FieldManager_init_def)
qed

text \<open>
  Claim C7. For every reachable field manager, \<^verbatim>\<open>from_dict\<close> of its \<^verbatim>\<open>to_dict\<close> on a
  fresh field manager gives the same field manager again, so every schema field has the same
  value; and for every conversation log reachable with a cap that is not negative,
  \<^verbatim>\<open>from_dict\<close> of its \<^verbatim>\<open>to_dict\<close> on a fresh log with the same cap gives the same
  entries in the same order. (A cap is a number of messages; with a negative one the slice
  \<^verbatim>\<open>history[-max_history:]\<close> drops entries from the front instead.)
\<close>
theorem snapshot_round_trip:
  assumes "0 \<le> cap"
  shows "fm_from_dict FieldManager_init (fm_to_dict (fm_run fcalls)) = fm_run fcalls
       \<and> (\<forall>k. get_field (fm_from_dict FieldManager_init (fm_to_dict (fm_run fcalls))) k
              = get_field (fm_run fcalls) k)
       \<and> cm_from_dict (ConversationManager_init cap) (cm_to_dict (cm_run cap ccalls))
           = cm_run cap ccalls
       \<and> history (cm_from_dict (ConversationManager_init cap) (cm_to_dict (cm_run cap ccalls)))
           = history (cm_run cap ccalls)"
  using fm_round_trip_eq [of fcalls] cm_round_trip [OF assms, of ccalls] by simp

theorem snapshot_round_trip_witness:
  "(0::int) \<le> 50
   \<and> fm_from_dict FieldManager_init
        (fm_to_dict (fm_run [Update_fields [(''Client'', Some ''Acme'')]]))
       = fm_run [Update_fields [(''Client'', Some ''Acme'')]]
   \<and> get_field (fm_run [Update_fields [(''Client'', Some ''Acme'')]]) ''Client'' = Some ''Acme''
   \<and> cm_from_dict (ConversationManager_init 50)
        (cm_to_dict (cm_run 50 [Add_message ''user'' ''hi'' None ''t1'',
                                Add_message ''assistant'' ''hello'' (Some ''clarify'') ''t2'']))
       = cm_run 50 [Add_message ''user'' ''hi'' None ''t1'',
                    Add_message ''assistant'' ''hello'' (Some ''clarify'') ''t2'']
   \<and> map content (history (cm_run 50 [Add_message ''user'' ''hi'' None ''t1'',
                    Add_message ''assistant'' ''hello'' (Some ''clarify'') ''t2''])) = [''hi'', ''hello'']"
proof -
  have h: "(0::int) \<le> 50" by simp
  have g: "get_field (fm_run [Update_fields [(''Client'', Some ''Acme'')]]) ''Client'' = Some ''Acme''"
    by code_simp
  have c: "map content (history (cm_run 50 [Add_message ''user'' ''hi'' None ''t1'',
                    Add_message ''assistant'' ''hello'' (Some ''clarify'') ''t2''])) = [''hi'', ''hello'']"
    by code_simp
  from snapshot_round_trip [OF h, of "[Update_fields [(''Client'', Some ''Acme'')]]"
      "[Add_message ''user'' ''hi'' None ''t1'',
        Add_message ''assistant'' ''hello'' (Some ''clarify'') ''t2'']"] g c
  show ?thesis by simp
qed

text \<open>
  Claim C6, at the cap 0. The claim is that the log never holds more entries than its cap
  after an append and that a restore keeps at most the cap's worth of entries. With
  \<^verbatim>\<open>max_history = 0\<close> the trim is \<^verbatim>\<open>history[-0:]\<close>, the whole list: after two appends
  the log holds two entries, and a restore of two entries keeps both. For every cap of at
  least 1 the bound and the first-in-first-out eviction hold (\<open>log_bounded_and_fifo\<close>).
\<close>
theorem cap_zero_log_is_never_trimmed:
  "max_history (cm_run 0 [Add_message ''user'' ''hi'' None ''t1'',
                          Add_message ''assistant'' ''hello'' None ''t2'']) = 0
   \<and> map content (history (cm_run 0 [Add_message ''user'' ''hi'' None ''t1'',
                          Add_message ''assistant'' ''hello'' None ''t2''])) = [''hi'', ''hello'']
   \<and> length (history (cm_run 0 [Add_message ''user'' ''hi'' None ''t1'',
                          Add_message ''assistant'' ''hello'' None ''t2''])) = 2
   \<and> length (history (cm_from_dict (ConversationManager_init 0)
        [\<lparr>role = ''user'', content = ''hi'', timestamp = ''t1'', entry_action = None\<rparr>,
         \<lparr>role = ''assistant'', content = ''hello'', timestamp = ''t2'', entry_action = None\<rparr>])) = 2"
  by code_simp

text \<open>
  Claim C9. For every user message and agent state: when the call of the model raises, or
  its response has no usable candidate or text that does not parse, or the parsed object is
  not a valid decision, \<^verbatim>\<open>decide_action\<close> returns the fallback decision, whose action
  is CLARIFY, whose message is the fixed apology, whose confidence is 0.3 and which requires
  user input. \<^verbatim>\<open>decide_action\<close> returns a decision in every case: no exception of the
  \<^verbatim>\<open>try\<close> body leaves it.
\<close>
theorem decide_action_falls_back_to_clarify:
  "(call_llm c = Inl e \<longrightarrow> decide_action c user_message st = fallback_decision user_message)
   \<and> (call_llm c = Inr reply_dict \<and> extract_json (json_loads c) reply_dict = Inl e
        \<longrightarrow> decide_action c user_message st = fallback_decision user_message)
   \<and> (call_llm c = Inr reply_dict \<and> extract_json (json_loads c) reply_dict = Inr parsed
        \<and> as_decision c parsed = Inl e
        \<longrightarrow> decide_action c user_message st = fallback_decision user_message)
   \<and> action (fallback_decision user_message) = CLARIFY
   \<and> message_to_user (fallback_decision user_message)
       = ''I'm having trouble understanding. Could you rephrase that?''
   \<and> confidence (fallback_decision user_message) = 3 / 10
   \<and> requires_user_input (fallback_decision user_message)"
  by (simp add: decide_action_def fallback_decision_def)

theorem decide_action_falls_back_to_clarify_witness:
  "call_llm timing_out = Inl (LLMError ''timeout'')
   \<and> decide_action timing_out ''hello'' fresh_state = fallback_decision ''hello''
   \<and> call_llm no_candidates = Inr (Some [])
   \<and> extract_json (json_loads no_candidates) (Some [])
       = Inl (ValueError ''No valid response from LLM'')
   \<and> decide_action no_candidates ''hello'' fresh_state = fallback_decision ''hello''
   \<and> action (decide_action no_candidates ''hello'' fresh_state) = CLARIFY
   \<and> confidence (decide_action timing_out ''hello'' fresh_state) = 3 / 10"
proof -
  have a: "call_llm timing_out = Inl (LLMError ''timeout'')"
    by (simp add: timing_out_def)
  have b: "call_llm no_candidates = Inr (Some [])
        \<and> extract_json (json_loads no_candidates) (Some [])
            = Inl (ValueError ''No valid response from LLM'')"
    by (simp add: extract_json_def no_candidates_def)
  note t = decide_action_falls_back_to_clarify
  from a t [of timing_out "LLMError ''timeout''" "''hello''" fresh_state]
  have 1: "decide_action timing_out ''hello'' fresh_state = fallback_decision ''hello''" by simp
  from b t [of no_candidates "ValueError ''No valid response from LLM''" "''hello''" fresh_state
      "Some []"]
  have 2: "decide_action no_candidates ''hello'' fresh_state = fallback_decision ''hello''" by simp
  from a b 1 2 t [of timing_out "LLMError ''timeout''" "''hello''" fresh_state]
  show ?thesis by simp
qed

lemma filled_all_when_complete:
  "is_complete fm \<Longrightarrow> get_filled_fields fm = fm_fields fm"
  by (auto simp: is_complete_def get_filled_fields_def list_all_iff intro!: filter_True)

text \<open>
  Claim C3. Let the field manager hold exactly the schema's keys and let the decision's
  action be SUBMIT\_FORM. If some schema field is unset (\<^verbatim>\<open>None\<close> or the empty string),
  \<^verbatim>\<open>execute\<close> returns a response of type "incomplete" with no ticket, and the agent's
  state is the same as before. If every schema field is set, it returns a response of type
  "submitted" whose ticket identifier is the prefix \<^verbatim>\<open>STUDY-\<close> followed by the formatted
  clock reading and whose ticket data holds all \<open>N\<close> field values, and again the agent's
  state, the field manager included, is the same as before.
\<close>
theorem submit_form_refuses_or_reads:
  assumes wf: "map fst (fm_fields (field_manager ag)) = field_names"
    and act: "action decision = SUBMIT_FORM"
  shows "((\<exists>k \<in> set field_names. \<not> truthy (get_field (field_manager ag) k)) \<longrightarrow>
           (\<exists>r. execute stamp decision ag = Inr (ag, r) \<and> rtype r = ''incomplete''
                \<and> ticket_id r = None \<and> ticket_data r = None))
       \<and> ((\<forall>k \<in> set field_names. truthy (get_field (field_manager ag) k)) \<longrightarrow>
           (\<exists>r d. execute stamp decision ag = Inr (ag, r) \<and> rtype r = ''submitted''
                \<and> ticket_id r = Some (''STUDY-'' @ stamp)
                \<and> ticket_data r = Some d
                \<and> map fst d = field_names
                \<and> length d = length FORM_SCHEMA
                \<and> (\<forall>k \<in> set field_names.
                      dict_get d k = get_field (field_manager ag) k \<and> truthy (dict_get d k))))"
proof -
  let ?fm = "field_manager ag"
  have dist: "distinct (map fst (fm_fields ?fm))"
    using wf distinct_field_names by simp
  have keys: "fst ` set (fm_fields ?fm) = set field_names"
    using wf by (metis list.set_map)
  have compl: "is_complete ?fm \<longleftrightarrow> (\<forall>k \<in> set field_names. truthy (get_field ?fm k))"
    using is_complete_iff [OF dist] keys by simp
  have ex: "execute stamp decision ag = execute_submit_form stamp decision ag"
    using act by (simp add: execute_def)
  have incomplete: "\<not> is_complete ?fm \<Longrightarrow>
      \<exists>r. execute stamp decision ag = Inr (ag, r) \<and> rtype r = ''incomplete''
                \<and> ticket_id r = None \<and> ticket_data r = None"
    by (simp add: ex execute_submit_form_def reply_def)
  have complete: "\<exists>r d. execute stamp decision ag = Inr (ag, r) \<and> rtype r = ''submitted''
                \<and> ticket_id r = Some (''STUDY-'' @ stamp)
                \<and> ticket_data r = Some d
                \<and> map fst d = field_names
                \<and> length d = length FORM_SCHEMA
                \<and> (\<forall>k \<in> set field_names.
                      dict_get d k = get_field ?fm k \<and> truthy (dict_get d k))"
    if c: "is_complete ?fm"
  proof -
    have len: "length (fm_fields ?fm) = length FORM_SCHEMA"
      using wf by (metis length_map field_names_def)
    have "\<forall>k \<in> set field_names. truthy (get_field ?fm k)"
      using c compl by simp
    then show ?thesis
      using c wf len
      by (simp add: ex execute_submit_form_def reply_def Let_def filled_all_when_complete
          get_field_def)
  qed
  show ?thesis
    using incomplete complete compl by blast
qed

lemma fresh_agent_keys: "map fst (fm_fields (field_manager fresh_agent)) = field_names"
  by (simp add: fresh_agent_def initialize_new_session_def fm_init_keys)

lemma filled_agent_keys: "map fst (fm_fields (field_manager filled_agent)) = field_names"
  by (simp add: filled_agent_def update_fields_keys fm_init_keys)

theorem submit_form_refuses_or_reads_witness:
  "map fst (fm_fields (field_manager fresh_agent)) = field_names
   \<and> map fst (fm_fields (field_manager filled_agent)) = field_names
   \<and> action submit_decision = SUBMIT_FORM
   \<and> \<not> truthy (get_field (field_manager fresh_agent) ''Client'')
   \<and> map_sum id (\<lambda>(a, r). (a = fresh_agent, rtype r)) (execute ''20240101-000000'' submit_decision fresh_agent)
       = Inr (True, ''incomplete'')
   \<and> list_all (\<lambda>k. truthy (get_field (field_manager filled_agent) k)) field_names
   \<and> map_sum id (\<lambda>(a, r). (a = filled_agent, rtype r, ticket_id r))
        (execute ''20240101-000000'' submit_decision filled_agent)
       = Inr (True, ''submitted'', Some ''STUDY-20240101-000000'')"
proof -
  have a: "action submit_decision = SUBMIT_FORM" by (simp add: submit_decision_def)
  have u: "\<not> truthy (get_field (field_manager fresh_agent) ''Client'')" by code_simp
  have f: "list_all (\<lambda>k. truthy (get_field (field_manager filled_agent) k)) field_names"
    by code_simp
  from u have 1: "\<exists>k \<in> set field_names. \<not> truthy (get_field (field_manager fresh_agent) k)"
    by (auto simp: field_names_eq)
  from f have 2: "\<forall>k \<in> set field_names. truthy (get_field (field_manager filled_agent) k)"
    by (simp add: list_all_iff)
  from submit_form_refuses_or_reads [OF fresh_agent_keys a, of "''20240101-000000''"] 1
  have i: "map_sum id (\<lambda>(a, r). (a = fresh_agent, rtype r))
      (execute ''20240101-000000'' submit_decision fresh_agent) = Inr (True, ''incomplete'')"
    by auto
  from submit_form_refuses_or_reads [OF filled_agent_keys a, of "''20240101-000000''"] 2
  have s: "map_sum id (\<lambda>(a, r). (a = filled_agent, rtype r, ticket_id r))
        (execute ''20240101-000000'' submit_decision filled_agent)
       = Inr (True, ''submitted'', Some ''STUDY-20240101-000000'')"
    by auto
  from fresh_agent_keys filled_agent_keys a u f i s show ?thesis by simp
qed

lemma fallback_no:
  "fallback_detection ''no'' =
     \<lparr>is_confirmation = False, is_rejection = True, is_modification_request = False,
      cd_confidence = 7 / 10, cd_reasoning = ''Fallback rule-based detection'',
      extracted_modifications = None\<rparr>"
  by code_simp

lemma fallback_yes:
  "fallback_detection ''yes'' =
     \<lparr>is_confirmation = True, is_rejection = False, is_modification_request = False,
      cd_confidence = 7 / 10, cd_reasoning = ''Fallback rule-based detection'',
      extracted_modifications = None\<rparr>"
  by code_simp

lemma detect_confirmation_fallback:
  "call_llm c = Inl e \<Longrightarrow> detect_confirmation c msg pending = fallback_detection msg"
  by (simp add: detect_confirmation_def)

lemma handle_message_awaiting:
  assumes "awaiting_confirmation (session ag)"
  shows "handle_message t msg ag =
     (case handle_confirmation_flow t msg
             (ag\<lparr>conversation := add_message (conversation ag) ''user'' msg None (user_time t)\<rparr>) of
        Inl e \<Rightarrow> Inl e
      | Inr (ag', r) \<Rightarrow>
          Inr (save_checkpoint
                 (ag'\<lparr>conversation :=
                       add_message (conversation ag') ''assistant'' (message r)
                         (last_action (session ag')) (reply_time t)\<rparr>), r))"
  using assms by (simp add: handle_message_def Let_def)

lemma save_checkpoint_simps [simp]:
  "field_manager (save_checkpoint ag) = field_manager ag"
  "stdout (save_checkpoint ag) = stdout ag"
  "rag_service (save_checkpoint ag) = rag_service ag"
  "awaiting_confirmation (session (save_checkpoint ag)) = awaiting_confirmation (session ag)"
  "pending_suggestions (session (save_checkpoint ag)) = pending_suggestions (session ag)"
  "rag_search_performed (session (save_checkpoint ag)) = rag_search_performed (session ag)"
  by (simp_all add: save_checkpoint_def)

lemma rejection_flow:
  assumes "detect_confirmation (llm t) msg (pending_suggestions (session ag)) = c"
    and "is_rejection c"
    and "\<not> (is_confirmation c \<and> cd_confidence c > 6 / 10)"
    and "\<not> (is_modification_request c \<and> dict_truthy (extracted_modifications c))"
  shows "handle_confirmation_flow t msg ag =
     Inr (ag\<lparr>session := (session ag)
               \<lparr>awaiting_confirmation := False, pending_suggestions := None\<rparr>\<rparr>,
          reply ''rejection'' ''No problem! What would you like to do instead?'')"
  using assms by (auto simp: handle_confirmation_flow_def Let_def)

text \<open>
  The rejection branch. It is reached when the classification is a rejection and neither of
  the two earlier branches is taken (a confirmation with confidence above 0.6, a
  modification request that carries modifications); then \<^verbatim>\<open>awaiting_confirmation\<close> is
  set to false, \<^verbatim>\<open>pending_suggestions\<close> to \<^verbatim>\<open>None\<close>, and the field manager is left
  as it was. The message "no" under the rule-based fallback is such a message
  (\<open>rejection_branch_example\<close>).
\<close>
lemma rejection_branch_clears_and_applies_nothing:
  assumes "awaiting_confirmation (session ag)"
    and "detect_confirmation (llm t) msg (pending_suggestions (session ag)) = c"
    and "is_rejection c"
    and "\<not> (is_confirmation c \<and> cd_confidence c > 6 / 10)"
    and "\<not> (is_modification_request c \<and> dict_truthy (extracted_modifications c))"
  shows "\<exists>ag' r. handle_message t msg ag = Inr (ag', r)
           \<and> \<not> awaiting_confirmation (session ag')
           \<and> pending_suggestions (session ag') = None
           \<and> field_manager ag' = field_manager ag
           \<and> (\<forall>k. get_field (field_manager ag') k = get_field (field_manager ag) k)
           \<and> rtype r = ''rejection''"
proof -
  let ?ag1 = "ag\<lparr>conversation := add_message (conversation ag) ''user'' msg None (user_time t)\<rparr>"
  have "detect_confirmation (llm t) msg (pending_suggestions (session ?ag1)) = c"
    using assms(2) by simp
  from rejection_flow [OF this assms(3-5)]
  show ?thesis
    by (simp add: handle_message_awaiting [OF assms(1)] reply_def)
qed

lemma search_some: "\<exists>results. search rag (Some q) = Inr results"
  by (simp add: search_def)

lemma problem_query_some: "\<exists>q. problem_query fm = Some q"
  by (cases "get_field fm ''Problem''") (auto simp: problem_query_def truthy_def)

lemma auto_trigger_rag_unfold:
  assumes r: "search (rag_service ag) (problem_query (field_manager ag)) = Inr results"
  shows "auto_trigger_rag ag =
     Inr (if num_results results > 0 \<and> found_fields results \<noteq> []
             \<and> filter (\<lambda>(k, v). \<not> truthy (get_field (field_manager ag) k))
                  (found_fields results) \<noteq> []
          then ag\<lparr>stdout := stdout ag @ [AUTO_TRIGGER, RAG_SEARCH (problem_query (field_manager ag))],
                  session := (session ag)
                    \<lparr>pending_suggestions :=
                       Some (filter (\<lambda>(k, v). \<not> truthy (get_field (field_manager ag) k))
                              (found_fields results)),
                     awaiting_confirmation := True,
                     rag_search_performed := True\<rparr>\<rparr>
          else ag\<lparr>stdout := stdout ag @ [AUTO_TRIGGER, RAG_SEARCH (problem_query (field_manager ag))]\<rparr>)"
  using r by (simp add: auto_trigger_rag_def problem_query_def Let_def) blast

lemma applied_response_simps [simp]:
  "rtype (applied_response fm p) = ''apply_suggestions''"
  "r_progress_pct (applied_response fm p) = Some p"
  by (simp_all add: applied_response_def reply_def Let_def)

lemma confirm_flow_unfold:
  assumes pend: "pending_suggestions (session ag) = Some P"
    and det: "detect_confirmation (llm t) msg (Some P) = c"
    and conf: "is_confirmation c" "cd_confidence c > 6 / 10"
    and prog: "calculate_progress (fst (update_fields (field_manager ag) P)) = Inr p"
  shows "handle_confirmation_flow t msg ag =
        (if \<not> rag_search_performed (session ag)
            \<and> \<not> is_complete (fst (update_fields (field_manager ag) P))
         then (case auto_trigger_rag
                 (ag\<lparr>field_manager := fst (update_fields (field_manager ag) P),
                     session := (session ag)
                       \<lparr>awaiting_confirmation := False,
                        pending_suggestions := None,
                        progress_pct := p\<rparr>\<rparr>) of
                 Inl e \<Rightarrow> Inl e
               | Inr a \<Rightarrow>
                   Inr (a, applied_response (fst (update_fields (field_manager ag) P)) p))
         else Inr (ag\<lparr>field_manager := fst (update_fields (field_manager ag) P),
                     session := (session ag)
                       \<lparr>awaiting_confirmation := False,
                        pending_suggestions := None,
                        progress_pct := p\<rparr>\<rparr>,
                   applied_response (fst (update_fields (field_manager ag) P)) p))"
  using pend det conf prog
  by (simp add: handle_confirmation_flow_def Let_def)

lemma finish_turn_simps [simp]:
  "field_manager (save_checkpoint (a\<lparr>conversation := cv\<rparr>)) = field_manager a"
  "stdout (save_checkpoint (a\<lparr>conversation := cv\<rparr>)) = stdout a"
  "awaiting_confirmation (session (save_checkpoint (a\<lparr>conversation := cv\<rparr>)))
     = awaiting_confirmation (session a)"
  "pending_suggestions (session (save_checkpoint (a\<lparr>conversation := cv\<rparr>)))
     = pending_suggestions (session a)"
  "rag_search_performed (session (save_checkpoint (a\<lparr>conversation := cv\<rparr>)))
     = rag_search_performed (session a)"
  by (simp_all add: save_checkpoint_def)

lemma handle_message_confirmed:
  assumes wf: "map fst (fm_fields (field_manager ag)) = field_names"
    and aw: "awaiting_confirmation (session ag)"
    and pend: "pending_suggestions (session ag) = Some P"
    and det: "detect_confirmation (llm t) msg (Some P) = c"
    and conf: "is_confirmation c" "cd_confidence c > 6 / 10"
  shows "\<exists>a r results.
      handle_message t msg ag = Inr (save_checkpoint (a\<lparr>conversation :=
                 add_message (conversation a) ''assistant'' (message r)
                   (last_action (session a)) (reply_time t)\<rparr>), r)
      \<and> rtype r = ''apply_suggestions''
      \<and> field_manager a = fst (update_fields (field_manager ag) P)
      \<and> search (rag_service ag) (problem_query (field_manager a)) = Inr results
      \<and> (if \<not> rag_search_performed (session ag) \<and> \<not> is_complete (field_manager a)
          then stdout a = stdout ag @ [AUTO_TRIGGER, RAG_SEARCH (problem_query (field_manager a))]
             \<and> (if num_results results > 0
                    \<and> filter (\<lambda>(k, v). \<not> truthy (get_field (field_manager a) k))
                         (found_fields results) \<noteq> []
                 then awaiting_confirmation (session a)
                    \<and> rag_search_performed (session a)
                    \<and> pending_suggestions (session a) =
                        Some (filter (\<lambda>(k, v). \<not> truthy (get_field (field_manager a) k))
                               (found_fields results))
                 else \<not> awaiting_confirmation (session a)
                    \<and> pending_suggestions (session a) = None
                    \<and> \<not> rag_search_performed (session a))
          else stdout a = stdout ag
             \<and> \<not> awaiting_confirmation (session a)
             \<and> pending_suggestions (session a) = None
             \<and> rag_search_performed (session a) = rag_search_performed (session ag))"
proof -
  let ?ag1 = "ag\<lparr>conversation := add_message (conversation ag) ''user'' msg None (user_time t)\<rparr>"
  let ?fm = "fst (update_fields (field_manager ag) P)"
  have wf': "map fst (fm_fields ?fm) = field_names"
    using wf by (simp add: update_fields_keys)
  obtain p where p: "calculate_progress ?fm = Inr p"
    using progress_range [OF wf'] by blast
  let ?base = "ag\<lparr>conversation := add_message (conversation ag) ''user'' msg None (user_time t),
                     field_manager := ?fm,
                     session := (session ag)
                       \<lparr>awaiting_confirmation := False,
                        pending_suggestions := None,
                        progress_pct := p\<rparr>\<rparr>"
  let ?r = "applied_response ?fm p"
  obtain q where q: "problem_query ?fm = Some q"
    using problem_query_some by blast
  obtain results where res: "search (rag_service ag) (problem_query ?fm) = Inr results"
    using search_some [of "rag_service ag" q] q by auto
  have flow: "handle_confirmation_flow t msg ?ag1 =
        (if \<not> rag_search_performed (session ag) \<and> \<not> is_complete ?fm
         then (case auto_trigger_rag ?base of Inl e \<Rightarrow> Inl e | Inr a \<Rightarrow> Inr (a, ?r))
         else Inr (?base, ?r))"
    using confirm_flow_unfold [of ?ag1 P t msg c p] pend det conf p
    by (simp cong: sum.case_cong if_cong)
  have hm: "handle_message t msg ag =
     (case handle_confirmation_flow t msg ?ag1 of
        Inl e \<Rightarrow> Inl e
      | Inr (ag', r) \<Rightarrow>
          Inr (save_checkpoint
                 (ag'\<lparr>conversation :=
                       add_message (conversation ag') ''assistant'' (message r)
                         (last_action (session ag')) (reply_time t)\<rparr>), r))"
    by (rule handle_message_awaiting [OF aw])
  show ?thesis
  proof (cases "\<not> rag_search_performed (session ag) \<and> \<not> is_complete ?fm")
    case False
    have "handle_confirmation_flow t msg ?ag1 = Inr (?base, ?r)"
      by (subst flow, rule if_not_P, rule False)
    then have "handle_message t msg ag = Inr (save_checkpoint (?base\<lparr>conversation :=
                 add_message (conversation ?base) ''assistant'' (message ?r)
                   (last_action (session ?base)) (reply_time t)\<rparr>), ?r)"
      using hm by simp
    then show ?thesis
      using False res by (intro exI [of _ ?base] exI [of _ ?r] exI [of _ results]) simp
  next
    case True
    let ?new = "filter (\<lambda>(k, v). \<not> truthy (get_field ?fm k)) (found_fields results)"
    let ?out = "stdout ag @ [AUTO_TRIGGER, RAG_SEARCH (problem_query ?fm)]"
    let ?a = "if num_results results > 0 \<and> found_fields results \<noteq> [] \<and> ?new \<noteq> []
          then ?base\<lparr>stdout := ?out,
                  session := (session ?base)
                    \<lparr>pending_suggestions := Some ?new,
                     awaiting_confirmation := True,
                     rag_search_performed := True\<rparr>\<rparr>
          else ?base\<lparr>stdout := ?out\<rparr>"
    have auto: "auto_trigger_rag ?base = Inr ?a"
      using auto_trigger_rag_unfold [of ?base results] res by simp
    have "handle_confirmation_flow t msg ?ag1 =
        (case auto_trigger_rag ?base of Inl e \<Rightarrow> Inl e | Inr a \<Rightarrow> Inr (a, ?r))"
      by (subst flow, rule if_P, rule True)
    then have "handle_confirmation_flow t msg ?ag1 = Inr (?a, ?r)"
      by (simp only: auto sum.case)
    then have h: "handle_message t msg ag = Inr (save_checkpoint (?a\<lparr>conversation :=
                 add_message (conversation ?a) ''assistant'' (message ?r)
                   (last_action (session ?a)) (reply_time t)\<rparr>), ?r)"
      using hm by simp
    have ne: "?new \<noteq> [] \<Longrightarrow> found_fields results \<noteq> []"
      by auto
    show ?thesis
    proof (cases "num_results results > 0 \<and> ?new \<noteq> []")
      case yes: True
      with ne have c: "num_results results > 0 \<and> found_fields results \<noteq> [] \<and> ?new \<noteq> []"
        by blast
      show ?thesis
        using h True res yes
        by (intro exI [of _ ?a] exI [of _ ?r] exI [of _ results]) (simp add: c)
    next
      case no: False
      then have c: "\<not> (num_results results > 0 \<and> found_fields results \<noteq> [] \<and> ?new \<noteq> [])"
        by blast
      show ?thesis
        using h True res no
        by (intro exI [of _ ?a] exI [of _ ?r] exI [of _ results]) (simp add: c)
    qed
  qed
qed

text \<open>
  Claim C1, as amended. In a session that awaits a confirmation with pending suggestions
  \<open>P\<close>, whose field manager holds exactly the schema's keys, a message classified as a
  confirmation with confidence above 0.6 is handled without error; afterwards
  \<^verbatim>\<open>get_field(k)\<close> returns the suggested value for every suggested key \<open>k\<close> of the schema
  (a key outside the schema is ignored), and the other fields are as before.
  \<^verbatim>\<open>awaiting_confirmation\<close> is false and \<^verbatim>\<open>pending_suggestions\<close> is \<^verbatim>\<open>None\<close> when
  the flag \<^verbatim>\<open>rag_search_performed\<close> is already set, or the form is now complete, or a
  retrieval client is configured (its search returns nothing). Otherwise the automatic retrieval runs with the
  Problem field (or the fixed query) as its query; when it finds suggestions for fields that
  are still unset, \<^verbatim>\<open>awaiting_confirmation\<close> is true again,
  \<^verbatim>\<open>pending_suggestions\<close> holds exactly those suggestions and
  \<^verbatim>\<open>rag_search_performed\<close> is true; when it finds none, both are cleared.
\<close>
theorem confirmation_applies_schema_suggestions:
  assumes wf: "map fst (fm_fields (field_manager ag)) = field_names"
    and aw: "awaiting_confirmation (session ag)"
    and pend: "pending_suggestions (session ag) = Some P"
    and dist: "distinct (map fst P)"
    and det: "detect_confirmation (llm t) msg (Some P) = c"
    and conf: "is_confirmation c" "cd_confidence c > 6 / 10"
  shows "\<exists>ag' r. handle_message t msg ag = Inr (ag', r)
     \<and> rtype r = ''apply_suggestions''
     \<and> (\<forall>(k, v) \<in> set P. k \<in> set field_names \<longrightarrow> get_field (field_manager ag') k = v)
     \<and> (\<forall>k. k \<notin> fst ` set P \<longrightarrow>
            get_field (field_manager ag') k = get_field (field_manager ag) k)
     \<and> (\<forall>k. k \<notin> set field_names \<longrightarrow> get_field (field_manager ag') k = None)
     \<and> (rag_search_performed (session ag) \<or> is_complete (field_manager ag')
          \<or> rag_client (rag_service ag)
          \<longrightarrow> \<not> awaiting_confirmation (session ag')
              \<and> pending_suggestions (session ag') = None)
     \<and> (awaiting_confirmation (session ag') \<longleftrightarrow> pending_suggestions (session ag') \<noteq> None)
     \<and> (\<forall>results.
           \<not> rag_search_performed (session ag) \<and> \<not> is_complete (field_manager ag')
           \<and> search (rag_service ag) (problem_query (field_manager ag')) = Inr results
           \<longrightarrow> stdout ag' = stdout ag
                  @ [AUTO_TRIGGER, RAG_SEARCH (problem_query (field_manager ag'))]
              \<and> (if num_results results > 0
                     \<and> filter (\<lambda>(k, v). \<not> truthy (get_field (field_manager ag') k))
                          (found_fields results) \<noteq> []
                  then awaiting_confirmation (session ag')
                     \<and> rag_search_performed (session ag')
                     \<and> pending_suggestions (session ag') =
                         Some (filter (\<lambda>(k, v). \<not> truthy (get_field (field_manager ag') k))
                                (found_fields results))
                  else \<not> awaiting_confirmation (session ag')
                     \<and> pending_suggestions (session ag') = None))"
proof -
  obtain a r results where
    hm: "handle_message t msg ag = Inr (save_checkpoint (a\<lparr>conversation :=
                 add_message (conversation a) ''assistant'' (message r)
                   (last_action (session a)) (reply_time t)\<rparr>), r)"
    and rt: "rtype r = ''apply_suggestions''"
    and fm: "field_manager a = fst (update_fields (field_manager ag) P)"
    and res: "search (rag_service ag) (problem_query (field_manager a)) = Inr results"
    and flags: "if \<not> rag_search_performed (session ag) \<and> \<not> is_complete (field_manager a)
          then stdout a = stdout ag @ [AUTO_TRIGGER, RAG_SEARCH (problem_query (field_manager a))]
             \<and> (if num_results results > 0
                    \<and> filter (\<lambda>(k, v). \<not> truthy (get_field (field_manager a) k))
                         (found_fields results) \<noteq> []
                 then awaiting_confirmation (session a)
                    \<and> rag_search_performed (session a)
                    \<and> pending_suggestions (session a) =
                        Some (filter (\<lambda>(k, v). \<not> truthy (get_field (field_manager a) k))
                               (found_fields results))
                 else \<not> awaiting_confirmation (session a)
                    \<and> pending_suggestions (session a) = None
                    \<and> \<not> rag_search_performed (session a))
          else stdout a = stdout ag
             \<and> \<not> awaiting_confirmation (session a)
             \<and> pending_suggestions (session a) = None
             \<and> rag_search_performed (session a) = rag_search_performed (session ag)"
    using handle_message_confirmed [OF wf aw pend det conf] by blast
  let ?ag' = "save_checkpoint (a\<lparr>conversation :=
                 add_message (conversation a) ''assistant'' (message r)
                   (last_action (session a)) (reply_time t)\<rparr>)"
  have fm': "field_manager ?ag' = fst (update_fields (field_manager ag) P)"
    using fm by simp
  have keys: "fst ` set (fm_fields (field_manager ag)) = set field_names"
    using wf by (metis list.set_map)
  have wf': "map fst (fm_fields (field_manager ?ag')) = field_names"
    using wf fm' by (simp add: update_fields_keys)
  have applied: "\<forall>(k, v) \<in> set P. k \<in> set field_names \<longrightarrow> get_field (field_manager ?ag') k = v"
  proof (clarify)
    fix k v assume "(k, v) \<in> set P" "k \<in> set field_names"
    then show "get_field (field_manager ?ag') k = v"
      unfolding fm' using dist keys by (intro get_field_update_fields) simp_all
  qed
  have others: "\<forall>k. k \<notin> fst ` set P \<longrightarrow>
            get_field (field_manager ?ag') k = get_field (field_manager ag) k"
    unfolding fm' by (simp add: get_field_update_fields_other)
  have non: "\<forall>k. k \<notin> set field_names \<longrightarrow> get_field (field_manager ?ag') k = None"
    using get_field_non_schema [OF wf'] by blast
  have client: "rag_client (rag_service ag) \<Longrightarrow> found_fields results = []"
    using res by (auto simp: search_def)
  have cleared: "rag_search_performed (session ag) \<or> is_complete (field_manager ?ag')
          \<or> rag_client (rag_service ag)
          \<longrightarrow> \<not> awaiting_confirmation (session ?ag')
              \<and> pending_suggestions (session ?ag') = None"
    using flags client by (auto split: if_splits)
  have iff: "awaiting_confirmation (session ?ag') \<longleftrightarrow> pending_suggestions (session ?ag') \<noteq> None"
    using flags by (auto split: if_splits)
  have exact: "\<forall>results'.
           \<not> rag_search_performed (session ag) \<and> \<not> is_complete (field_manager ?ag')
           \<and> search (rag_service ag) (problem_query (field_manager ?ag')) = Inr results'
           \<longrightarrow> stdout ?ag' = stdout ag
                  @ [AUTO_TRIGGER, RAG_SEARCH (problem_query (field_manager ?ag'))]
              \<and> (if num_results results' > 0
                     \<and> filter (\<lambda>(k, v). \<not> truthy (get_field (field_manager ?ag') k))
                          (found_fields results') \<noteq> []
                  then awaiting_confirmation (session ?ag')
                     \<and> rag_search_performed (session ?ag')
                     \<and> pending_suggestions (session ?ag') =
                         Some (filter (\<lambda>(k, v). \<not> truthy (get_field (field_manager ?ag') k))
                                (found_fields results'))
                  else \<not> awaiting_confirmation (session ?ag')
                     \<and> pending_suggestions (session ?ag') = None)"
  proof (intro allI impI)
    fix results'
    assume h: "\<not> rag_search_performed (session ag) \<and> \<not> is_complete (field_manager ?ag')
           \<and> search (rag_service ag) (problem_query (field_manager ?ag')) = Inr results'"
    then have same: "results' = results" using res by simp
    from h have c: "\<not> rag_search_performed (session ag) \<and> \<not> is_complete (field_manager a)"
      by simp
    from c have cc: "(\<not> rag_search_performed (session ag) \<and> \<not> is_complete (field_manager a)) = True"
      by simp
    from flags [unfolded cc if_True] have
      f: "stdout a = stdout ag @ [AUTO_TRIGGER, RAG_SEARCH (problem_query (field_manager a))]
             \<and> (if num_results results > 0
                    \<and> filter (\<lambda>(k, v). \<not> truthy (get_field (field_manager a) k))
                         (found_fields results) \<noteq> []
                 then awaiting_confirmation (session a)
                    \<and> rag_search_performed (session a)
                    \<and> pending_suggestions (session a) =
                        Some (filter (\<lambda>(k, v). \<not> truthy (get_field (field_manager a) k))
                               (found_fields results))
                 else \<not> awaiting_confirmation (session a)
                    \<and> pending_suggestions (session a) = None
                    \<and> \<not> rag_search_performed (session a))"
      .
    show "stdout ?ag' = stdout ag
                  @ [AUTO_TRIGGER, RAG_SEARCH (problem_query (field_manager ?ag'))]
              \<and> (if num_results results' > 0
                     \<and> filter (\<lambda>(k, v). \<not> truthy (get_field (field_manager ?ag') k))
                          (found_fields results') \<noteq> []
                  then awaiting_confirmation (session ?ag')
                     \<and> rag_search_performed (session ?ag')
                     \<and> pending_suggestions (session ?ag') =
                         Some (filter (\<lambda>(k, v). \<not> truthy (get_field (field_manager ?ag') k))
                                (found_fields results'))
                  else \<not> awaiting_confirmation (session ?ag')
                     \<and> pending_suggestions (session ?ag') = None)"
      using f unfolding same by (auto split: if_splits)
  qed
  show ?thesis
    using hm rt applied others non cleared iff exact
    by (intro exI [of _ ?ag'] exI [of _ r] conjI)
qed

text \<open>
  The example of claim C1 in a fresh session with the default (mock) retrieval: the model
  suggests \<^verbatim>\<open>{"Client": "Acme"}\<close>, the user answers "yes", the call of the model fails and
  the rule-based fallback classifies the answer as a confirmation with confidence 0.7.
  After the turn the session awaits a confirmation again, for the five suggestions of the
  automatic retrieval. And a suggested key outside the schema is not stored.
\<close>
theorem confirmation_example_counterexample:
  "map_option (awaiting_confirmation \<circ> session)
     (final (session_run False [model_suggests [(''Client'', Some ''Acme'')] ''I am Acme'']))
     = Some True
   \<and> map_option (pending_suggestions \<circ> session)
     (final (session_run False [model_suggests [(''Client'', Some ''Acme'')] ''I am Acme'']))
     = Some (Some [(''Client'', Some ''Acme'')])
   \<and> is_confirmation (detect_confirmation timing_out ''yes'' (Some [(''Client'', Some ''Acme'')]))
   \<and> cd_confidence (detect_confirmation timing_out ''yes'' (Some [(''Client'', Some ''Acme'')]))
       > 6 / 10
   \<and> map_option (awaiting_confirmation \<circ> session)
     (final (session_run False
        [model_suggests [(''Client'', Some ''Acme'')] ''I am Acme'', model_fails ''yes'']))
     = Some True
   \<and> map_option (pending_suggestions \<circ> session)
     (final (session_run False
        [model_suggests [(''Client'', Some ''Acme'')] ''I am Acme'', model_fails ''yes'']))
     = Some (Some (found_fields scenario_generic))
   \<and> map_option (pending_suggestions \<circ> session)
     (final (session_run True [model_suggests [(''Budget'', Some ''10'')] ''budget is 10'']))
     = Some (Some [(''Budget'', Some ''10'')])
   \<and> map_option (\<lambda>a. get_field (field_manager a) ''Budget'')
     (final (session_run True
        [model_suggests [(''Budget'', Some ''10'')] ''budget is 10'', model_fails ''yes'']))
     = Some None"
  by code_simp

text \<open>
  Claim C8, at the rejection keyword "incorrect". The claim is that a message classified as
  a rejection and not as a modification clears both flags and leaves every field value
  unchanged. The rule-based fallback tests membership by substring, and its own rejection
  keyword "incorrect" contains the confirmation keyword "correct": the message "incorrect"
  (and likewise "no, that is not correct") is classified as a rejection, not as a
  modification, and also as a confirmation with confidence 0.7. The orchestrator tests the
  confirmation first, so the pending suggestion is applied: the field Client, unset before
  the message, holds "Acme" after it.
\<close>
theorem rejection_keyword_incorrect_applies_suggestion:
  "detect_confirmation timing_out ''incorrect'' (Some [(''Client'', Some ''Acme'')])
     = fallback_detection ''incorrect''
   \<and> is_rejection (fallback_detection ''incorrect'')
   \<and> is_modification_request (fallback_detection ''incorrect'') = False
   \<and> is_confirmation (fallback_detection ''incorrect'')
   \<and> cd_confidence (fallback_detection ''incorrect'') = 7 / 10
   \<and> map_option (awaiting_confirmation \<circ> session)
     (final (session_run True [model_suggests [(''Client'', Some ''Acme'')] ''I am Acme'']))
     = Some True
   \<and> map_option (pending_suggestions \<circ> session)
     (final (session_run True [model_suggests [(''Client'', Some ''Acme'')] ''I am Acme'']))
     = Some (Some [(''Client'', Some ''Acme'')])
   \<and> map_option (\<lambda>a. get_field (field_manager a) ''Client'')
     (final (session_run True [model_suggests [(''Client'', Some ''Acme'')] ''I am Acme'']))
     = Some None
   \<and> map_option (\<lambda>a. get_field (field_manager a) ''Client'')
     (final (session_run True
        [model_suggests [(''Client'', Some ''Acme'')] ''I am Acme'', model_fails ''incorrect'']))
     = Some (Some ''Acme'')
   \<and> is_rejection (fallback_detection ''no, that is not correct'')
   \<and> is_modification_request (fallback_detection ''no, that is not correct'') = False
   \<and> map_option (\<lambda>a. get_field (field_manager a) ''Client'')
     (final (session_run True
        [model_suggests [(''Client'', Some ''Acme'')] ''I am Acme'',
         model_fails ''no, that is not correct'']))
     = Some (Some ''Acme'')"
  by code_simp

text \<open>
  Claim C2, on two sessions. The claim is that the automatic retrieval after a
  confirmation runs at most once in a session's life. \<^verbatim>\<open>rag_search_performed\<close> is set
  only when the search offers suggestions for unset fields. With a retrieval client
  configured the search returns nothing, and with the mock the search offers nothing new
  once its five fields are filled: in both sessions two confirmations leave the form
  incomplete and the automatic retrieval is announced twice.
\<close>
theorem auto_trigger_fires_twice:
  "map_option auto_triggers
     (final (session_run True
        [model_suggests [(''Client'', Some ''Acme'')] ''I am Acme'',
         model_fails ''yes'',
         model_suggests [(''Priority'', Some ''High'')] ''it is urgent'',
         model_fails ''yes'']))
     = Some 2
   \<and> map_option (rag_search_performed \<circ> session)
     (final (session_run True
        [model_suggests [(''Client'', Some ''Acme'')] ''I am Acme'',
         model_fails ''yes'',
         model_suggests [(''Priority'', Some ''High'')] ''it is urgent'',
         model_fails ''yes'']))
     = Some False
   \<and> map_option auto_triggers
     (final (session_run False
        [model_suggests (found_fields scenario_generic) ''the details'',
         model_fails ''yes'',
         model_suggests [(''Priority'', Some ''High'')] ''it is urgent'',
         model_fails ''yes'']))
     = Some 2
   \<and> map_option (is_complete \<circ> field_manager)
     (final (session_run False
        [model_suggests (found_fields scenario_generic) ''the details'',
         model_fails ''yes'',
         model_suggests [(''Priority'', Some ''High'')] ''it is urgent'',
         model_fails ''yes'']))
     = Some False"
  by code_simp

lemma awaiting_agent_keys: "map fst (fm_fields (field_manager (awaiting_agent b))) = field_names"
  by (simp add: awaiting_agent_def initialize_new_session_def fm_init_keys)

lemma awaiting_agent_flags:
  "awaiting_confirmation (session (awaiting_agent b))"
  "pending_suggestions (session (awaiting_agent b)) = Some [(''Client'', Some ''Acme'')]"
  "rag_client (rag_service (awaiting_agent b)) = b"
  by (simp_all add: awaiting_agent_def initialize_new_session_def)

lemma timing_out_yes:
  "detect_confirmation (llm (turn_at timing_out ''t2'')) ''yes'' pending = fallback_detection ''yes''"
  by (simp add: detect_confirmation_def turn_at_def timing_out_def)

lemma timing_out_no:
  "detect_confirmation (llm (turn_at timing_out ''t2'')) ''no'' pending = fallback_detection ''no''"
  by (simp add: detect_confirmation_def turn_at_def timing_out_def)

theorem confirmation_applies_schema_suggestions_witness:
  "map fst (fm_fields (field_manager (awaiting_agent True))) = field_names
   \<and> awaiting_confirmation (session (awaiting_agent True))
   \<and> pending_suggestions (session (awaiting_agent True)) = Some [(''Client'', Some ''Acme'')]
   \<and> distinct (map fst [(''Client'', Some ''Acme'')])
   \<and> is_confirmation (detect_confirmation (llm (turn_at timing_out ''t2'')) ''yes''
         (Some [(''Client'', Some ''Acme'')]))
   \<and> cd_confidence (detect_confirmation (llm (turn_at timing_out ''t2'')) ''yes''
         (Some [(''Client'', Some ''Acme'')])) > 6 / 10
   \<and> map_option (\<lambda>a. get_field (field_manager a) ''Client'')
        (after (handle_message (turn_at timing_out ''t2'') ''yes'' (awaiting_agent True)))
       = Some (Some ''Acme'')
   \<and> map_option (awaiting_confirmation \<circ> session)
        (after (handle_message (turn_at timing_out ''t2'') ''yes'' (awaiting_agent True)))
       = Some False
   \<and> map_option (pending_suggestions \<circ> session)
        (after (handle_message (turn_at timing_out ''t2'') ''yes'' (awaiting_agent True)))
       = Some None"
proof -
  let ?P = "[(''Client'', Some ''Acme'')]"
  let ?t = "turn_at timing_out ''t2''"
  let ?c = "fallback_detection ''yes''"
  have det: "detect_confirmation (llm ?t) ''yes'' (Some ?P) = ?c" by (rule timing_out_yes)
  have c1: "is_confirmation ?c" by (simp add: fallback_yes)
  have c2: "cd_confidence ?c > 6 / 10" by (simp add: fallback_yes)
  have dist: "distinct (map fst ?P)" by simp
  have client: "''Client'' \<in> set field_names" by (simp add: field_names_eq)
  from confirmation_applies_schema_suggestions
    [OF awaiting_agent_keys awaiting_agent_flags(1) awaiting_agent_flags(2) dist det c1 c2]
  obtain ag' r where
    hm: "handle_message ?t ''yes'' (awaiting_agent True) = Inr (ag', r)"
    and ap: "\<forall>(k, v) \<in> set ?P. k \<in> set field_names \<longrightarrow> get_field (field_manager ag') k = v"
    and cl: "rag_search_performed (session (awaiting_agent True)) \<or> is_complete (field_manager ag')
          \<or> rag_client (rag_service (awaiting_agent True))
          \<longrightarrow> \<not> awaiting_confirmation (session ag')
              \<and> pending_suggestions (session ag') = None"
    by blast
  from ap client have g: "get_field (field_manager ag') ''Client'' = Some ''Acme''" by simp
  from cl awaiting_agent_flags(3) [of True]
  have f: "\<not> awaiting_confirmation (session ag') \<and> pending_suggestions (session ag') = None"
    by simp
  from hm g f det c1 c2 dist awaiting_agent_keys [of True] awaiting_agent_flags(1,2) [of True]
  show ?thesis by (simp add: after_def)
qed

lemma rejection_branch_example:
  "awaiting_confirmation (session (awaiting_agent False))
   \<and> is_rejection (detect_confirmation (llm (turn_at timing_out ''t2'')) ''no''
         (pending_suggestions (session (awaiting_agent False))))
   \<and> \<not> is_confirmation (detect_confirmation (llm (turn_at timing_out ''t2'')) ''no''
         (pending_suggestions (session (awaiting_agent False))))
   \<and> \<not> is_modification_request (detect_confirmation (llm (turn_at timing_out ''t2'')) ''no''
         (pending_suggestions (session (awaiting_agent False))))
   \<and> map_option field_manager
        (after (handle_message (turn_at timing_out ''t2'') ''no'' (awaiting_agent False)))
       = Some (field_manager (awaiting_agent False))
   \<and> map_option (awaiting_confirmation \<circ> session)
        (after (handle_message (turn_at timing_out ''t2'') ''no'' (awaiting_agent False)))
       = Some False
   \<and> map_option (pending_suggestions \<circ> session)
        (after (handle_message (turn_at timing_out ''t2'') ''no'' (awaiting_agent False)))
       = Some None"
proof -
  let ?t = "turn_at timing_out ''t2''"
  let ?c = "fallback_detection ''no''"
  let ?A = "awaiting_agent False"
  have det: "detect_confirmation (llm ?t) ''no'' (pending_suggestions (session ?A)) = ?c"
    by (rule timing_out_no)
  have r: "is_rejection ?c" by (simp add: fallback_no)
  have nc: "\<not> (is_confirmation ?c \<and> cd_confidence ?c > 6 / 10)" by (simp add: fallback_no)
  have nm: "\<not> (is_modification_request ?c \<and> dict_truthy (extracted_modifications ?c))"
    by (simp add: fallback_no)
  from rejection_branch_clears_and_applies_nothing [OF awaiting_agent_flags(1) det r nc nm]
  obtain ag' r' where
    hm: "handle_message ?t ''no'' ?A = Inr (ag', r')"
    and f: "\<not> awaiting_confirmation (session ag')" "pending_suggestions (session ag') = None"
      "field_manager ag' = field_manager ?A"
    by blast
  from hm f det awaiting_agent_flags(1) [of False]
  show ?thesis by (simp add: after_def fallback_no)
qed

lemma restore_history:
  assumes "1 \<le> max_history cm"
  shows "history (cm_from_dict cm h) = drop (length h - nat (max_history cm)) h"
  using assms by (simp add: cm_from_dict_def py_last_def)

lemma log_bounded_and_fifo:
  assumes "1 \<le> cap"
  shows "int (length (history (cm_run cap calls))) \<le> cap
     \<and> history (add_message (cm_run cap calls) r body act stamp) =
         drop (length (history (cm_run cap calls)) + 1 - nat cap)
           (history (cm_run cap calls)
            @ [\<lparr>role = r, content = body, timestamp = stamp, entry_action = act\<rparr>])
     \<and> int (length (history (add_message (cm_run cap calls) r body act stamp))) \<le> cap
     \<and> history (cm_from_dict (cm_run cap calls) h) = drop (length h - nat cap) h
     \<and> int (length (history (cm_from_dict (cm_run cap calls) h))) \<le> cap"
proof -
  have cap: "max_history (cm_run cap calls) = cap" by (rule cm_run_cap)
  have 1: "1 \<le> max_history (cm_run cap calls)" using assms cap by simp
  show ?thesis
    using cm_run_bounded [OF assms, of calls] add_message_fifo [OF 1, of r body act stamp]
      add_message_bounded [OF 1, of r body act stamp] restore_history [OF 1, of h] cap assms
    by auto
qed

end
